theory Spec2Isabelle
  imports Complex_Main "HOL-Library.AList" "HOL-Library.Sublist"
begin

section \<open>JavaScript values\<close>

text \<open>
  The client reads the response body as \<^verbatim>\<open>any\<close>, so the decoders of
  \<^verbatim>\<open>src/moex-api.ts\<close> run on whatever \<^verbatim>\<open>response.json()\<close> resolves to.
  A value is modelled as the runtime has it. A number is carried as the rational
  value of its double (the decoders never compute with a number: they test it for
  zero and turn it into a property key). A string is its list of code units. An
  object parsed from JSON is the list of its own properties; its prototype is
  \<^verbatim>\<open>Object.prototype\<close> and it holds no function. \<open>Undefined\<close> never occurs in a
  parsed body; it is what a read of a missing property gives.
\<close>

datatype jsval =
    Undefined
  | Null
  | Bool bool
  | Num rat
  | Str string
  | Arr "jsval list"
  | Obj "(string \<times> jsval) list"

text \<open>
  The decoders build fresh objects with \<^verbatim>\<open>{}\<close> and write to them. Such an object
  has its own properties and a prototype: \<open>None\<close> stands for the initial
  \<^verbatim>\<open>Object.prototype\<close>, \<open>Some v\<close> for a prototype that an assignment to
  \<^verbatim>\<open>__proto__\<close> installed (\<open>Some Null\<close> is the null prototype).
\<close>

record jsobject =
  own :: "(string \<times> jsval) list"
  proto :: "jsval option"

text \<open>
  The \<^verbatim>\<open>TypeError\<close>s the runtime throws in the decoders: a property read on
  \<^verbatim>\<open>undefined\<close> or \<^verbatim>\<open>null\<close> (with the name read), a call of something that
  is not a function (with the expression called), and the conversion to a property
  key of an object that has no primitive value.
\<close>

datatype type_error =
    CannotReadProperties jsval string
  | NotAFunction string
  | CannotConvertToPrimitive

text \<open>
  Two things are the runtime's own and are taken as parameters: the text of a
  number (\<^verbatim>\<open>Number::toString\<close>) and the message of a \<^verbatim>\<open>TypeError\<close>.
\<close>

record runtime =
  Number_toString :: "rat \<Rightarrow> string"
  TypeError_message :: "type_error \<Rightarrow> string"

text \<open>
  A value thrown or a rejection: an instance of \<^verbatim>\<open>Error\<close> with its message, or any
  other value.
\<close>

datatype thrown = ErrorObj string | NonError jsval

subsection \<open>Truthiness, property reads\<close>

text \<open>\<^verbatim>\<open>!v\<close> is \<open>\<not> truthy v\<close>. A parsed number is never \<^verbatim>\<open>NaN\<close>.\<close>

fun truthy :: "jsval \<Rightarrow> bool" where
  "truthy Undefined = False"
| "truthy Null = False"
| "truthy (Bool b) = b"
| "truthy (Num n) = (n \<noteq> 0)"
| "truthy (Str s) = (s \<noteq> [])"
| "truthy (Arr xs) = True"
| "truthy (Obj kvs) = True"

text \<open>
  \<^verbatim>\<open>v.name\<close> for the names the client reads: \<^verbatim>\<open>securities\<close>, \<^verbatim>\<open>marketdata\<close>,
  \<^verbatim>\<open>sessions\<close>, \<^verbatim>\<open>columns\<close>, \<^verbatim>\<open>data\<close> and \<^verbatim>\<open>length\<close>. None of them but
  \<^verbatim>\<open>length\<close> is defined on a built-in prototype, so only an object's own
  property can answer; \<^verbatim>\<open>length\<close> is also an own property of arrays and strings.
\<close>

fun get_prop :: "jsval \<Rightarrow> string \<Rightarrow> type_error + jsval" where
  "get_prop Undefined name = Inl (CannotReadProperties Undefined name)"
| "get_prop Null name = Inl (CannotReadProperties Null name)"
| "get_prop (Obj kvs) name = Inr (case map_of kvs name of Some v \<Rightarrow> v | None \<Rightarrow> Undefined)"
| "get_prop (Arr xs) name = Inr (if name = ''length'' then Num (of_nat (length xs)) else Undefined)"
| "get_prop (Str s) name = Inr (if name = ''length'' then Num (of_nat (length s)) else Undefined)"
| "get_prop (Bool b) name = Inr Undefined"
| "get_prop (Num n) name = Inr Undefined"

text \<open>
  \<^verbatim>\<open>v[index]\<close> for an index that is a natural number: an element of an array, a
  code unit of a string, the property of an object whose name is the text of the
  index, and \<^verbatim>\<open>undefined\<close> out of range or on a boolean or a number.
\<close>

fun get_index :: "runtime \<Rightarrow> jsval \<Rightarrow> nat \<Rightarrow> type_error + jsval" where
  "get_index rt Undefined index = Inl (CannotReadProperties Undefined (Number_toString rt (of_nat index)))"
| "get_index rt Null index = Inl (CannotReadProperties Null (Number_toString rt (of_nat index)))"
| "get_index rt (Arr xs) index = Inr (if index < length xs then xs ! index else Undefined)"
| "get_index rt (Str s) index = Inr (if index < length s then Str [s ! index] else Undefined)"
| "get_index rt (Obj kvs) index =
     Inr (case map_of kvs (Number_toString rt (of_nat index)) of Some v \<Rightarrow> v | None \<Rightarrow> Undefined)"
| "get_index rt (Bool b) index = Inr Undefined"
| "get_index rt (Num n) index = Inr Undefined"

subsection \<open>Property keys\<close>

text \<open>
  \<^verbatim>\<open>security[column]\<close> turns \<^verbatim>\<open>column\<close> into a property key. A string is its own
  key. An array is joined with commas, \<^verbatim>\<open>null\<close> elements giving the empty text. An
  object parsed from JSON gives \<^verbatim>\<open>[object Object]\<close>, unless an own property
  \<^verbatim>\<open>toString\<close> hides the inherited method: the own property is not callable,
  \<^verbatim>\<open>valueOf\<close> returns no primitive, and the conversion throws.
\<close>

fun join_comma :: "string list \<Rightarrow> string" where
  "join_comma [] = []"
| "join_comma [s] = s"
| "join_comma (s # t # ss) = s @ '','' @ join_comma (t # ss)"

text \<open>The texts of the elements of an array, up to the first element whose conversion throws.\<close>

fun texts :: "(type_error + string) list \<Rightarrow> type_error + string list" where
  "texts [] = Inr []"
| "texts (Inl e # rest) = Inl e"
| "texts (Inr s # rest) = (case texts rest of Inl e \<Rightarrow> Inl e | Inr ss \<Rightarrow> Inr (s # ss))"

fun ToString :: "runtime \<Rightarrow> jsval \<Rightarrow> type_error + string" where
  "ToString rt Undefined = Inr ''undefined''"
| "ToString rt Null = Inr ''null''"
| "ToString rt (Bool b) = Inr (if b then ''true'' else ''false'')"
| "ToString rt (Num n) = Inr (Number_toString rt n)"
| "ToString rt (Str s) = Inr s"
| "ToString rt (Arr xs) =
     (case texts (map (\<lambda>x. if x = Undefined \<or> x = Null then Inr [] else ToString rt x) xs) of
        Inl e \<Rightarrow> Inl e
      | Inr ss \<Rightarrow> Inr (join_comma ss))"
| "ToString rt (Obj kvs) =
     (if map_of kvs ''toString'' = None then Inr ''[object Object]'' else Inl CannotConvertToPrimitive)"

definition ToPropertyKey :: "runtime \<Rightarrow> jsval \<Rightarrow> type_error + string" where
  "ToPropertyKey rt v = ToString rt v"

subsection \<open>Assignment to a property of a fresh object\<close>

definition empty_object :: jsobject where
  "empty_object = \<lparr>own = [], proto = None\<rparr>"

text \<open>
  \<^verbatim>\<open>Object.prototype\<close> defines \<^verbatim>\<open>__proto__\<close> as an accessor. A write to that key
  reaches the accessor when no data property of that name comes first on the
  prototype chain: none of the object's own, and none of an installed prototype
  (which is a parsed value: an object, whose own property would come first, or an
  array, which has none; the null prototype ends the chain before the accessor).
\<close>

definition reaches_proto_setter :: "jsobject \<Rightarrow> bool" where
  "reaches_proto_setter obj =
     (map_of (own obj) ''__proto__'' = None \<and>
      (case proto obj of
         None \<Rightarrow> True
       | Some (Obj kvs) \<Rightarrow> map_of kvs ''__proto__'' = None
       | Some (Arr xs) \<Rightarrow> True
       | Some _ \<Rightarrow> False))"

fun is_object_or_null :: "jsval \<Rightarrow> bool" where
  "is_object_or_null (Obj kvs) = True"
| "is_object_or_null (Arr xs) = True"
| "is_object_or_null Null = True"
| "is_object_or_null _ = False"

text \<open>
  \<^verbatim>\<open>obj[key] = v\<close>. The accessor installs an object or \<^verbatim>\<open>null\<close> as the prototype
  and ignores any other value. Every other write sets an own property: in place when
  the object has it, at the end otherwise.
\<close>

definition set_prop :: "jsobject \<Rightarrow> string \<Rightarrow> jsval \<Rightarrow> jsobject" where
  "set_prop obj key v =
     (if key = ''__proto__'' \<and> reaches_proto_setter obj
      then (if is_object_or_null v then obj\<lparr>proto := Some v\<rparr> else obj)
      else obj\<lparr>own := AList.update key v (own obj)\<rparr>)"

section \<open>The decoders\<close>

text \<open>
  The three operations share one loop, written out in each of them:
  \<^verbatim>\<open>columns.forEach((column, index) => { security[column] = row[index]; })\<close>.
  The right-hand side is read first, then the key is converted and the property
  written. \<open>forEach_assign\<close> is the iteration over the elements of an array
  \<^verbatim>\<open>columns\<close> from \<open>index\<close> on; it stops at the first \<^verbatim>\<open>TypeError\<close>.
\<close>

fun forEach_assign ::
  "runtime \<Rightarrow> jsval list \<Rightarrow> nat \<Rightarrow> jsval \<Rightarrow> jsobject \<Rightarrow> type_error + jsobject" where
  "forEach_assign rt [] index row obj = Inr obj"
| "forEach_assign rt (column # columns) index row obj =
     (case get_index rt row index of
        Inl e \<Rightarrow> Inl e
      | Inr v \<Rightarrow>
          (case ToPropertyKey rt column of
             Inl e \<Rightarrow> Inl e
           | Inr key \<Rightarrow> forEach_assign rt columns (Suc index) row (set_prop obj key v)))"

text \<open>
  The body of the row callback: \<^verbatim>\<open>const security: any = {}; columns.forEach(...);
  return security\<close>. \<^verbatim>\<open>columns.forEach\<close> is a function only when \<^verbatim>\<open>columns\<close> is
  an array.
\<close>

fun decode_row :: "runtime \<Rightarrow> jsval \<Rightarrow> jsval \<Rightarrow> type_error + jsobject" where
  "decode_row rt Undefined row = Inl (CannotReadProperties Undefined ''forEach'')"
| "decode_row rt Null row = Inl (CannotReadProperties Null ''forEach'')"
| "decode_row rt (Arr cs) row = forEach_assign rt cs 0 row empty_object"
| "decode_row rt _ row = Inl (NotAFunction ''columns.forEach'')"

text \<open>
  \<^verbatim>\<open>rows.map(row => ...)\<close>: the callback runs on the rows in order and the first
  throw ends the call. \<^verbatim>\<open>rows.map\<close> is a function only when \<^verbatim>\<open>rows\<close> is an
  array (the caller has checked that \<^verbatim>\<open>rows\<close> is truthy).
\<close>

fun map_rows :: "runtime \<Rightarrow> jsval \<Rightarrow> jsval list \<Rightarrow> type_error + jsobject list" where
  "map_rows rt columns [] = Inr []"
| "map_rows rt columns (row # rows) =
     (case decode_row rt columns row of
        Inl e \<Rightarrow> Inl e
      | Inr r \<Rightarrow> (case map_rows rt columns rows of Inl e \<Rightarrow> Inl e | Inr rs \<Rightarrow> Inr (r # rs)))"

fun rows_map :: "runtime \<Rightarrow> jsval \<Rightarrow> jsval \<Rightarrow> type_error + jsobject list" where
  "rows_map rt columns (Arr rows) = map_rows rt columns rows"
| "rows_map rt columns Undefined = Inl (CannotReadProperties Undefined ''map'')"
| "rows_map rt columns Null = Inl (CannotReadProperties Null ''map'')"
| "rows_map rt columns _ = Inl (NotAFunction ''rows.map'')"

text \<open>
  The decode step of the two listing operations, lines 35 to 48 and 116 to 129 of
  \<^verbatim>\<open>src/moex-api.ts\<close>, for the resource key \<open>resource\<close>:
  \<^verbatim>\<open>if (!data.securities || !data.securities.data) return [];\<close> and then the map
  over the rows.
\<close>

definition decode_many :: "runtime \<Rightarrow> string \<Rightarrow> jsval \<Rightarrow> type_error + jsobject list" where
  "decode_many rt resource data =
     (case get_prop data resource of
        Inl e \<Rightarrow> Inl e
      | Inr table \<Rightarrow>
          if \<not> truthy table then Inr []
          else (case get_prop table ''data'' of
                  Inl e \<Rightarrow> Inl e
                | Inr rows \<Rightarrow>
                    if \<not> truthy rows then Inr []
                    else (case get_prop table ''columns'' of
                            Inl e \<Rightarrow> Inl e
                          | Inr columns \<Rightarrow> rows_map rt columns rows)))"

definition getSecurities_decode :: "runtime \<Rightarrow> jsval \<Rightarrow> type_error + jsobject list" where
  "getSecurities_decode rt data = decode_many rt ''securities'' data"

definition getTradingSessions_decode :: "runtime \<Rightarrow> jsval \<Rightarrow> type_error + jsobject list" where
  "getTradingSessions_decode rt data = decode_many rt ''sessions'' data"

text \<open>
  The decode step of \<^verbatim>\<open>getMarketData\<close>, lines 77 to 89. \<open>None\<close> is the
  \<^verbatim>\<open>null\<close> the operation returns.
  \<^verbatim>\<open>if (!data.marketdata || !data.marketdata.data || data.marketdata.data.length === 0)
  return null;\<close>
\<close>

definition getMarketData_decode :: "runtime \<Rightarrow> jsval \<Rightarrow> type_error + jsobject option" where
  "getMarketData_decode rt data =
     (case get_prop data ''marketdata'' of
        Inl e \<Rightarrow> Inl e
      | Inr table \<Rightarrow>
          if \<not> truthy table then Inr None
          else (case get_prop table ''data'' of
                  Inl e \<Rightarrow> Inl e
                | Inr rows \<Rightarrow>
                    if \<not> truthy rows then Inr None
                    else (case get_prop rows ''length'' of
                            Inl e \<Rightarrow> Inl e
                          | Inr len \<Rightarrow>
                              if len = Num 0 then Inr None
                              else (case get_prop table ''columns'' of
                                      Inl e \<Rightarrow> Inl e
                                    | Inr columns \<Rightarrow>
                                        (case get_index rt rows 0 of
                                           Inl e \<Rightarrow> Inl e
                                         | Inr row \<Rightarrow>
                                             (case decode_row rt columns row of
                                                Inl e \<Rightarrow> Inl e
                                              | Inr r \<Rightarrow> Inr (Some r)))))))"

section \<open>The operations\<close>

subsection \<open>Enumerations and query URLs\<close>

text \<open>
  \<^verbatim>\<open>src/types.ts\<close>: the string enums \<^verbatim>\<open>Engine\<close> and \<^verbatim>\<open>Market\<close>. At run time
  an argument is the string value of a member, or any other string a caller passes.
\<close>

datatype Engine = STOCK | STATE | CURRENCY | FUTURES | COMMODITY | INTERVENTIONS

fun Engine_value :: "Engine \<Rightarrow> string" where
  "Engine_value STOCK = ''stock''"
| "Engine_value STATE = ''state''"
| "Engine_value CURRENCY = ''currency''"
| "Engine_value FUTURES = ''futures''"
| "Engine_value COMMODITY = ''commodity''"
| "Engine_value INTERVENTIONS = ''interventions''"

datatype Market =
  SHARES | BONDS | NDM | OTC | CCP | DEPOSIT | REPO | QNV | MAMC | FOREIGNEXCHANGE | SELT | PSDB | MIXED

fun Market_value :: "Market \<Rightarrow> string" where
  "Market_value SHARES = ''shares''"
| "Market_value BONDS = ''bonds''"
| "Market_value NDM = ''ndm''"
| "Market_value OTC = ''otc''"
| "Market_value CCP = ''ccp''"
| "Market_value DEPOSIT = ''deposit''"
| "Market_value REPO = ''repo''"
| "Market_value QNV = ''qnv''"
| "Market_value MAMC = ''mamc''"
| "Market_value FOREIGNEXCHANGE = ''foreignexchange''"
| "Market_value SELT = ''selt''"
| "Market_value PSDB = ''psdb''"
| "Market_value MIXED = ''mixed''"

definition MOEX_API_BASE_URL :: string where
  "MOEX_API_BASE_URL = ''https://iss.moex.com/iss''"

text \<open>
  The template literals of lines 25, 67 and 106. \<^verbatim>\<open>${engine}\<close>, \<^verbatim>\<open>${market}\<close> and
  \<^verbatim>\<open>${secid}\<close> insert the string as it is; \<^verbatim>\<open>${limit}\<close> inserts the text of the
  number.
\<close>

definition getSecurities_url :: "runtime \<Rightarrow> string \<Rightarrow> string \<Rightarrow> rat \<Rightarrow> string" where
  "getSecurities_url rt engine market limit =
     MOEX_API_BASE_URL @ ''/engines/'' @ engine @ ''/markets/'' @ market @
     ''/securities.json?iss.meta=off&iss.only=securities&securities.columns=SECID,BOARDID,SHORTNAME,PREVPRICE,LOTSIZE,FACEVALUE,STATUS,BOARDNAME,DECIMALS,SECNAME,REMARKS,MARKETCODE,INSTRID,SECTORID,MINSTEP,PREVWAPRICE,FACEUNIT,PREVDATE,ISSUESIZE,ISIN,LATNAME,REGNUMBER,PREVLEGALCLOSEPRICE,CURRENCYID,SECTYPE,LISTLEVEL,SETTLEDATE&start=0&limit='' @
     Number_toString rt limit"

definition getMarketData_url :: "string \<Rightarrow> string \<Rightarrow> string \<Rightarrow> string" where
  "getMarketData_url secid engine market =
     MOEX_API_BASE_URL @ ''/engines/'' @ engine @ ''/markets/'' @ market @ ''/securities/'' @ secid @
     ''.json?iss.meta=off&iss.only=marketdata''"

definition getTradingSessions_url :: "string \<Rightarrow> string \<Rightarrow> string" where
  "getTradingSessions_url engine market =
     MOEX_API_BASE_URL @ ''/engines/'' @ engine @ ''/markets/'' @ market @ ''/sessions.json?iss.meta=off''"

text \<open>
  The column whitelist as section 6 of the specification lists it, to be compared
  with the literal of the source.
\<close>

definition securities_columns :: "string list" where
  "securities_columns =
     [''SECID'', ''BOARDID'', ''SHORTNAME'', ''PREVPRICE'', ''LOTSIZE'', ''FACEVALUE'', ''STATUS'',
      ''BOARDNAME'', ''DECIMALS'', ''SECNAME'', ''REMARKS'', ''MARKETCODE'', ''INSTRID'', ''SECTORID'',
      ''MINSTEP'', ''PREVWAPRICE'', ''FACEUNIT'', ''PREVDATE'', ''ISSUESIZE'', ''ISIN'', ''LATNAME'',
      ''REGNUMBER'', ''PREVLEGALCLOSEPRICE'', ''CURRENCYID'', ''SECTYPE'', ''LISTLEVEL'', ''SETTLEDATE'']"

subsection \<open>Transport\<close>

text \<open>
  What the client uses of a response of \<^verbatim>\<open>fetch\<close>: \<^verbatim>\<open>ok\<close>, \<^verbatim>\<open>status\<close>, and
  the outcome of \<^verbatim>\<open>await response.json()\<close>, a rejection or the parsed body. The
  transport answers a URL with a rejection or a response, and records every request
  made of it.
\<close>

record response =
  ok :: bool
  status :: rat
  json :: "thrown + jsval"

record transport =
  respond :: "string \<Rightarrow> thrown + response"
  requested :: "string list"

definition fetch :: "transport \<Rightarrow> string \<Rightarrow> (thrown + response) \<times> transport" where
  "fetch t url = (respond t url, t\<lparr>requested := requested t @ [url]\<rparr>)"

subsection \<open>try and catch\<close>

text \<open>
  The statements between the request and the decode step, the same in the three
  operations: \<^verbatim>\<open>if (!response.ok) throw new Error(`HTTP error! status: ${response.status}`);
  const data = await response.json()\<close>.
\<close>

definition response_data :: "runtime \<Rightarrow> thrown + response \<Rightarrow> thrown + jsval" where
  "response_data rt fetched =
     (case fetched of
        Inl e \<Rightarrow> Inl e
      | Inr response \<Rightarrow>
          if \<not> ok response
          then Inl (ErrorObj (''HTTP error! status: '' @ Number_toString rt (status response)))
          else json response)"

text \<open>A \<^verbatim>\<open>TypeError\<close> of the decode step is an \<^verbatim>\<open>Error\<close> with the runtime's message.\<close>

definition throw_type_error :: "runtime \<Rightarrow> type_error + 'a \<Rightarrow> thrown + 'a" where
  "throw_type_error rt r =
     (case r of Inl e \<Rightarrow> Inl (ErrorObj (TypeError_message rt e)) | Inr v \<Rightarrow> Inr v)"

text \<open>
  \<^verbatim>\<open>catch (error) { throw new Error(`<intro>${error instanceof Error ? error.message :
  'Unknown error'}`); }\<close>
\<close>

definition catch_rethrow :: "string \<Rightarrow> thrown + 'a \<Rightarrow> thrown + 'a" where
  "catch_rethrow intro r =
     (case r of
        Inl error \<Rightarrow>
          Inl (ErrorObj (intro @ (case error of ErrorObj message \<Rightarrow> message | NonError v \<Rightarrow> ''Unknown error'')))
      | Inr v \<Rightarrow> Inr v)"

text \<open>A parameter left out takes its default.\<close>

definition or_default :: "'a \<Rightarrow> 'a option \<Rightarrow> 'a" where
  "or_default d a = (case a of None \<Rightarrow> d | Some x \<Rightarrow> x)"

subsection \<open>getSecurities, getMarketData, getTradingSessions\<close>

definition getSecurities ::
  "runtime \<Rightarrow> transport \<Rightarrow> string option \<Rightarrow> string option \<Rightarrow> rat option
     \<Rightarrow> (thrown + jsobject list) \<times> transport" where
  "getSecurities rt t engine market limit =
     (let url = getSecurities_url rt (or_default (Engine_value STOCK) engine)
                  (or_default (Market_value SHARES) market) (or_default 100 limit);
          (fetched, t') = fetch t url
      in (catch_rethrow ''Failed to fetch securities: ''
            (case response_data rt fetched of
               Inl e \<Rightarrow> Inl e
             | Inr data \<Rightarrow> throw_type_error rt (getSecurities_decode rt data)),
          t'))"

definition getMarketData ::
  "runtime \<Rightarrow> transport \<Rightarrow> string \<Rightarrow> string option \<Rightarrow> string option
     \<Rightarrow> (thrown + jsobject option) \<times> transport" where
  "getMarketData rt t secid engine market =
     (let url = getMarketData_url secid (or_default (Engine_value STOCK) engine)
                  (or_default (Market_value SHARES) market);
          (fetched, t') = fetch t url
      in (catch_rethrow (''Failed to fetch market data for '' @ secid @ '': '')
            (case response_data rt fetched of
               Inl e \<Rightarrow> Inl e
             | Inr data \<Rightarrow> throw_type_error rt (getMarketData_decode rt data)),
          t'))"

definition getTradingSessions ::
  "runtime \<Rightarrow> transport \<Rightarrow> string option \<Rightarrow> string option
     \<Rightarrow> (thrown + jsobject list) \<times> transport" where
  "getTradingSessions rt t engine market =
     (let url = getTradingSessions_url (or_default (Engine_value STOCK) engine)
                  (or_default (Market_value SHARES) market);
          (fetched, t') = fetch t url
      in (catch_rethrow ''Failed to fetch trading sessions: ''
            (case response_data rt fetched of
               Inl e \<Rightarrow> Inl e
             | Inr data \<Rightarrow> throw_type_error rt (getTradingSessions_decode rt data)),
          t'))"

section \<open>A runtime for the examples\<close>

text \<open>
  The examples below need a concrete runtime. Its \<open>Number_toString\<close> writes a natural
  number in decimal, as the runtime does below \<open>10\<^sup>2\<^sup>1\<close>; the examples use no other
  number as a text. Its \<open>TypeError_message\<close> gives the messages of Node.js.
\<close>

function decimal :: "nat \<Rightarrow> string" where
  "decimal n = (if n < 10 then [''0123456789'' ! n] else decimal (n div 10) @ [''0123456789'' ! (n mod 10)])"
  by pat_completeness auto
termination
  by (relation "measure (\<lambda>n. n)") auto

definition node_message :: "type_error \<Rightarrow> string" where
  "node_message e =
     (case e of
        CannotReadProperties v name \<Rightarrow>
          ''Cannot read properties of '' @ (if v = Null then ''null'' else ''undefined'') @
          '' (reading '' @ [CHR 0x27] @ name @ [CHR 0x27] @ '')''
      | NotAFunction expr \<Rightarrow> expr @ '' is not a function''
      | CannotConvertToPrimitive \<Rightarrow> ''Cannot convert object to primitive value'')"

definition example_runtime :: runtime where
  "example_runtime =
     \<lparr>Number_toString = (\<lambda>q. if q = of_nat (nat \<lfloor>q\<rfloor>) then decimal (nat \<lfloor>q\<rfloor>) else ''?''),
      TypeError_message = node_message\<rparr>"

declare decimal.simps [simp del]

section \<open>The decoders on a store\<close>

text \<open>
  A parsed body is a graph of arrays and objects that the caller, the decoders and
  the Records share by reference: \<^verbatim>\<open>security[column] = row[index]\<close> stores in the
  Record the very object the row holds. To speak of what the decode step writes,
  the decoders are given a second time over a store. A value is a primitive or a
  reference to a cell, a cell is an array or an object, the store is the list of
  the cells, and a reference is an index into it. An allocation appends a cell.
\<close>

datatype ref_val = RUndefined | RNull | RBool bool | RNum rat | RStr string | Ref nat

datatype cell =
    ArrayCell "ref_val list"
  | ObjectCell "(string \<times> ref_val) list" "ref_val option"

type_synonym store = "cell list"

definition cell_at :: "store \<Rightarrow> nat \<Rightarrow> cell option" where
  "cell_at st a = (if a < length st then Some (st ! a) else None)"

definition alloc :: "store \<Rightarrow> cell \<Rightarrow> nat \<times> store" where
  "alloc st c = (length st, st @ [c])"

text \<open>
  The value a reference stands for, read off the store down to \<open>n\<close> levels. Parsed
  data is a tree with fewer levels than the store has cells.
\<close>

fun reify :: "nat \<Rightarrow> store \<Rightarrow> ref_val \<Rightarrow> jsval" where
  "reify n st RUndefined = Undefined"
| "reify n st RNull = Null"
| "reify n st (RBool b) = Bool b"
| "reify n st (RNum q) = Num q"
| "reify n st (RStr s) = Str s"
| "reify 0 st (Ref a) = Undefined"
| "reify (Suc n) st (Ref a) =
     (case cell_at st a of
        None \<Rightarrow> Undefined
      | Some (ArrayCell xs) \<Rightarrow> Arr (map (reify n st) xs)
      | Some (ObjectCell kvs p) \<Rightarrow> Obj (map (\<lambda>kv. (fst kv, reify n st (snd kv))) kvs))"

text \<open>
  The reads of section 1, on the store. They are made of parsed arrays and objects
  only; the Records are written and returned, never read.
\<close>

fun store_truthy :: "ref_val \<Rightarrow> bool" where
  "store_truthy RUndefined = False"
| "store_truthy RNull = False"
| "store_truthy (RBool b) = b"
| "store_truthy (RNum n) = (n \<noteq> 0)"
| "store_truthy (RStr s) = (s \<noteq> [])"
| "store_truthy (Ref a) = True"

fun store_get_prop :: "store \<Rightarrow> ref_val \<Rightarrow> string \<Rightarrow> type_error + ref_val" where
  "store_get_prop st RUndefined name = Inl (CannotReadProperties Undefined name)"
| "store_get_prop st RNull name = Inl (CannotReadProperties Null name)"
| "store_get_prop st (Ref a) name =
     Inr (case cell_at st a of
            Some (ObjectCell kvs p) \<Rightarrow> (case map_of kvs name of Some v \<Rightarrow> v | None \<Rightarrow> RUndefined)
          | Some (ArrayCell xs) \<Rightarrow> if name = ''length'' then RNum (of_nat (length xs)) else RUndefined
          | None \<Rightarrow> RUndefined)"
| "store_get_prop st (RStr s) name = Inr (if name = ''length'' then RNum (of_nat (length s)) else RUndefined)"
| "store_get_prop st (RBool b) name = Inr RUndefined"
| "store_get_prop st (RNum n) name = Inr RUndefined"

fun store_get_index :: "runtime \<Rightarrow> store \<Rightarrow> ref_val \<Rightarrow> nat \<Rightarrow> type_error + ref_val" where
  "store_get_index rt st RUndefined index =
     Inl (CannotReadProperties Undefined (Number_toString rt (of_nat index)))"
| "store_get_index rt st RNull index = Inl (CannotReadProperties Null (Number_toString rt (of_nat index)))"
| "store_get_index rt st (Ref a) index =
     Inr (case cell_at st a of
            Some (ArrayCell xs) \<Rightarrow> if index < length xs then xs ! index else RUndefined
          | Some (ObjectCell kvs p) \<Rightarrow>
              (case map_of kvs (Number_toString rt (of_nat index)) of Some v \<Rightarrow> v | None \<Rightarrow> RUndefined)
          | None \<Rightarrow> RUndefined)"
| "store_get_index rt st (RStr s) index = Inr (if index < length s then RStr [s ! index] else RUndefined)"
| "store_get_index rt st (RBool b) index = Inr RUndefined"
| "store_get_index rt st (RNum n) index = Inr RUndefined"

text \<open>The conversion to a property key reads the column as a value and writes nothing.\<close>

definition store_ToPropertyKey :: "runtime \<Rightarrow> store \<Rightarrow> ref_val \<Rightarrow> type_error + string" where
  "store_ToPropertyKey rt st v = ToPropertyKey rt (reify (length st) st v)"

text \<open>\<^verbatim>\<open>obj[key] = v\<close> for the object in the cell \<open>a\<close>: the one write of the decoders.\<close>

definition store_reaches_proto_setter :: "store \<Rightarrow> (string \<times> ref_val) list \<Rightarrow> ref_val option \<Rightarrow> bool" where
  "store_reaches_proto_setter st props p =
     (map_of props ''__proto__'' = None \<and>
      (case p of
         None \<Rightarrow> True
       | Some (Ref b) \<Rightarrow>
           (case cell_at st b of
              Some (ObjectCell kvs q) \<Rightarrow> map_of kvs ''__proto__'' = None
            | Some (ArrayCell xs) \<Rightarrow> True
            | None \<Rightarrow> False)
       | Some _ \<Rightarrow> False))"

fun is_reference_or_null :: "ref_val \<Rightarrow> bool" where
  "is_reference_or_null (Ref a) = True"
| "is_reference_or_null RNull = True"
| "is_reference_or_null _ = False"

definition store_set_prop :: "store \<Rightarrow> nat \<Rightarrow> string \<Rightarrow> ref_val \<Rightarrow> store" where
  "store_set_prop st a key v =
     (case cell_at st a of
        Some (ObjectCell props p) \<Rightarrow>
          st[a := (if key = ''__proto__'' \<and> store_reaches_proto_setter st props p
                   then (if is_reference_or_null v then ObjectCell props (Some v) else ObjectCell props p)
                   else ObjectCell (AList.update key v props) p)]
      | _ \<Rightarrow> st)"

text \<open>
  \<^verbatim>\<open>columns.forEach(callback)\<close> on the array in the cell \<open>c\<close>: the length is read
  once, and each element is read from the store when its turn comes, so a write to
  the array during the loop would be seen. \<open>n\<close> counts the indices left.
\<close>

fun store_forEach ::
  "runtime \<Rightarrow> store \<Rightarrow> nat \<Rightarrow> nat \<Rightarrow> nat \<Rightarrow> ref_val \<Rightarrow> nat \<Rightarrow> type_error option \<times> store" where
  "store_forEach rt st c index 0 row a = (None, st)"
| "store_forEach rt st c index (Suc n) row a =
     (case cell_at st c of
        Some (ArrayCell xs) \<Rightarrow>
          if index < length xs
          then (case store_get_index rt st row index of
                  Inl e \<Rightarrow> (Some e, st)
                | Inr v \<Rightarrow>
                    (case store_ToPropertyKey rt st (xs ! index) of
                       Inl e \<Rightarrow> (Some e, st)
                     | Inr key \<Rightarrow> store_forEach rt (store_set_prop st a key v) c (Suc index) n row a))
          else store_forEach rt st c (Suc index) n row a
      | _ \<Rightarrow> store_forEach rt st c (Suc index) n row a)"

text \<open>The row callback: \<^verbatim>\<open>{}\<close> allocates the Record, the loop fills it.\<close>

definition store_decode_row :: "runtime \<Rightarrow> store \<Rightarrow> ref_val \<Rightarrow> ref_val \<Rightarrow> (type_error + ref_val) \<times> store" where
  "store_decode_row rt st columns row =
     (let (a, st1) = alloc st (ObjectCell [] None)
      in case columns of
           RUndefined \<Rightarrow> (Inl (CannotReadProperties Undefined ''forEach''), st1)
         | RNull \<Rightarrow> (Inl (CannotReadProperties Null ''forEach''), st1)
         | Ref c \<Rightarrow>
             (case cell_at st1 c of
                Some (ArrayCell xs) \<Rightarrow>
                  (case store_forEach rt st1 c 0 (length xs) row a of
                     (Some e, st2) \<Rightarrow> (Inl e, st2)
                   | (None, st2) \<Rightarrow> (Inr (Ref a), st2))
              | _ \<Rightarrow> (Inl (NotAFunction ''columns.forEach''), st1))
         | _ \<Rightarrow> (Inl (NotAFunction ''columns.forEach''), st1))"

text \<open>
  \<^verbatim>\<open>rows.map(callback)\<close> on the array in the cell \<open>r\<close>: the result array is
  allocated first, the rows are read from the store one at a time, and every result
  is stored in the result array (a hole where the row is no longer there).
\<close>

definition store_push :: "store \<Rightarrow> nat \<Rightarrow> ref_val \<Rightarrow> store" where
  "store_push st a v = (case cell_at st a of Some (ArrayCell ys) \<Rightarrow> st[a := ArrayCell (ys @ [v])] | _ \<Rightarrow> st)"

fun store_map ::
  "runtime \<Rightarrow> store \<Rightarrow> ref_val \<Rightarrow> nat \<Rightarrow> nat \<Rightarrow> nat \<Rightarrow> nat \<Rightarrow> type_error option \<times> store" where
  "store_map rt st columns r index 0 result = (None, st)"
| "store_map rt st columns r index (Suc n) result =
     (case cell_at st r of
        Some (ArrayCell rows) \<Rightarrow>
          if index < length rows
          then (case store_decode_row rt st columns (rows ! index) of
                  (Inl e, st1) \<Rightarrow> (Some e, st1)
                | (Inr v, st1) \<Rightarrow> store_map rt (store_push st1 result v) columns r (Suc index) n result)
          else store_map rt (store_push st result RUndefined) columns r (Suc index) n result
      | _ \<Rightarrow> store_map rt (store_push st result RUndefined) columns r (Suc index) n result)"

definition store_rows_map :: "runtime \<Rightarrow> store \<Rightarrow> ref_val \<Rightarrow> ref_val \<Rightarrow> (type_error + ref_val) \<times> store" where
  "store_rows_map rt st columns rows =
     (case rows of
        RUndefined \<Rightarrow> (Inl (CannotReadProperties Undefined ''map''), st)
      | RNull \<Rightarrow> (Inl (CannotReadProperties Null ''map''), st)
      | Ref r \<Rightarrow>
          (case cell_at st r of
             Some (ArrayCell xs) \<Rightarrow>
               (let (result, st1) = alloc st (ArrayCell [])
                in case store_map rt st1 columns r 0 (length xs) result of
                     (Some e, st2) \<Rightarrow> (Inl e, st2)
                   | (None, st2) \<Rightarrow> (Inr (Ref result), st2))
           | _ \<Rightarrow> (Inl (NotAFunction ''rows.map''), st))
      | _ \<Rightarrow> (Inl (NotAFunction ''rows.map''), st))"

text \<open>The decode steps. \<^verbatim>\<open>return []\<close> allocates an empty array.\<close>

definition store_decode_many ::
  "runtime \<Rightarrow> store \<Rightarrow> string \<Rightarrow> ref_val \<Rightarrow> (type_error + ref_val) \<times> store" where
  "store_decode_many rt st resource data =
     (case store_get_prop st data resource of
        Inl e \<Rightarrow> (Inl e, st)
      | Inr table \<Rightarrow>
          if \<not> store_truthy table then (let (a, st1) = alloc st (ArrayCell []) in (Inr (Ref a), st1))
          else (case store_get_prop st table ''data'' of
                  Inl e \<Rightarrow> (Inl e, st)
                | Inr rows \<Rightarrow>
                    if \<not> store_truthy rows then (let (a, st1) = alloc st (ArrayCell []) in (Inr (Ref a), st1))
                    else (case store_get_prop st table ''columns'' of
                            Inl e \<Rightarrow> (Inl e, st)
                          | Inr columns \<Rightarrow> store_rows_map rt st columns rows)))"

definition store_getMarketData_decode ::
  "runtime \<Rightarrow> store \<Rightarrow> ref_val \<Rightarrow> (type_error + ref_val) \<times> store" where
  "store_getMarketData_decode rt st data =
     (case store_get_prop st data ''marketdata'' of
        Inl e \<Rightarrow> (Inl e, st)
      | Inr table \<Rightarrow>
          if \<not> store_truthy table then (Inr RNull, st)
          else (case store_get_prop st table ''data'' of
                  Inl e \<Rightarrow> (Inl e, st)
                | Inr rows \<Rightarrow>
                    if \<not> store_truthy rows then (Inr RNull, st)
                    else (case store_get_prop st rows ''length'' of
                            Inl e \<Rightarrow> (Inl e, st)
                          | Inr len \<Rightarrow>
                              if len = RNum 0 then (Inr RNull, st)
                              else (case store_get_prop st table ''columns'' of
                                      Inl e \<Rightarrow> (Inl e, st)
                                    | Inr columns \<Rightarrow>
                                        (case store_get_index rt st rows 0 of
                                           Inl e \<Rightarrow> (Inl e, st)
                                         | Inr row \<Rightarrow> store_decode_row rt st columns row)))))"

definition store_getSecurities_decode :: "runtime \<Rightarrow> store \<Rightarrow> ref_val \<Rightarrow> (type_error + ref_val) \<times> store" where
  "store_getSecurities_decode rt st data = store_decode_many rt st ''securities'' data"

definition store_getTradingSessions_decode :: "runtime \<Rightarrow> store \<Rightarrow> ref_val \<Rightarrow> (type_error + ref_val) \<times> store" where
  "store_getTradingSessions_decode rt st data = store_decode_many rt st ''sessions'' data"

section \<open>Notions of the specification\<close>

text \<open>
  The Record of the specification for the names \<open>columns\<close> and the values \<open>row\<close>:
  both have the same length, the object maps the name at every index to the value
  at that index, it has no other own property, and its prototype is the one
  \<^verbatim>\<open>{}\<close> gave it.
\<close>

definition record_of :: "string list \<Rightarrow> jsval list \<Rightarrow> jsobject \<Rightarrow> bool" where
  "record_of columns row r \<longleftrightarrow>
     list_all2 (\<lambda>column v. map_of (own r) column = Some v) columns row \<and>
     fst ` set (own r) = set columns \<and>
     proto r = None"

text \<open>\<^verbatim>\<open>row[i]\<close> for an array \<^verbatim>\<open>row\<close>.\<close>

definition at_or_undefined :: "jsval list \<Rightarrow> nat \<Rightarrow> jsval" where
  "at_or_undefined vs i = (if i < length vs then vs ! i else Undefined)"

text \<open>
  A key is present in a value when the value is an object with an own property of
  that name. \<open>field v name\<close> is what it is bound to; an absent key reads as
  \<^verbatim>\<open>undefined\<close>.
\<close>

definition has_key :: "jsval \<Rightarrow> string \<Rightarrow> bool" where
  "has_key v name = (case v of Obj kvs \<Rightarrow> name \<in> fst ` set kvs | _ \<Rightarrow> False)"

definition field :: "jsval \<Rightarrow> string \<Rightarrow> jsval" where
  "field v name = (case v of Obj kvs \<Rightarrow> (case map_of kvs name of Some x \<Rightarrow> x | None \<Rightarrow> Undefined) | _ \<Rightarrow> Undefined)"

text \<open>The table of the first scenario of section 8 (with names in Latin letters).\<close>

definition example_table :: "(string \<times> jsval) list" where
  "example_table =
     [(''columns'', Arr [Str ''SECID'', Str ''BOARDID'', Str ''SHORTNAME'', Str ''PREVPRICE'']),
      (''data'', Arr [Arr [Str ''SBER'', Str ''TQBR'', Str ''Sberbank'', Num 250.5],
                      Arr [Str ''GAZP'', Str ''TQBR'', Str ''Gazprom'', Num 180.2]])]"

definition example_body :: jsval where
  "example_body =
     Obj [(''securities'', Obj example_table), (''sessions'', Obj example_table),
          (''marketdata'', Obj example_table)]"

text \<open>
  A body has a missing or empty structure for a resource when it lacks the resource
  key, or the resource lacks the \<^verbatim>\<open>data\<close> key, or \<^verbatim>\<open>data\<close> is the empty array.
\<close>

definition missing_or_empty :: "string \<Rightarrow> jsval \<Rightarrow> bool" where
  "missing_or_empty resource data \<longleftrightarrow>
     \<not> has_key data resource \<or>
     \<not> has_key (field data resource) ''data'' \<or>
     field (field data resource) ''data'' = Arr []"

text \<open>
  The resource key is present and bound to a falsy value, or the \<^verbatim>\<open>data\<close> key of
  the resource is present and bound to a falsy value.
\<close>

definition falsy_bound :: "string \<Rightarrow> jsval \<Rightarrow> bool" where
  "falsy_bound resource data \<longleftrightarrow>
     (has_key data resource \<and> \<not> truthy (field data resource)) \<or>
     (has_key (field data resource) ''data'' \<and> \<not> truthy (field (field data resource) ''data''))"

text \<open>The same body with a key taken out.\<close>

definition without_key :: "string \<Rightarrow> jsval \<Rightarrow> jsval" where
  "without_key name v = (case v of Obj kvs \<Rightarrow> Obj (AList.delete name kvs) | _ \<Rightarrow> v)"

text \<open>A body whose keys are there and bound to \<^verbatim>\<open>null\<close> or \<^verbatim>\<open>0\<close>.\<close>

definition null_body :: jsval where
  "null_body = Obj [(''securities'', Null), (''sessions'', Obj [(''columns'', Arr [Str ''A'']), (''data'', Null)]), (''marketdata'', Num 0)]"

text \<open>
  A quote body whose \<^verbatim>\<open>data\<close> is bound to \<^verbatim>\<open>null\<close>, and one that has a row but
  no \<^verbatim>\<open>columns\<close>.
\<close>

definition null_data_body :: jsval where
  "null_data_body = Obj [(''marketdata'', Obj [(''columns'', Arr [Str ''A'']), (''data'', Null)])]"

definition no_columns_body :: jsval where
  "no_columns_body = Obj [(''marketdata'', Obj [(''data'', Arr [Arr [Num 1]])])]"

text \<open>An operation fails with an \<^verbatim>\<open>Error\<close> whose message satisfies \<open>P\<close>.\<close>

definition fails_with :: "(string \<Rightarrow> bool) \<Rightarrow> thrown + 'a \<Rightarrow> bool" where
  "fails_with P r = (case r of Inl (ErrorObj message) \<Rightarrow> P message | _ \<Rightarrow> False)"

text \<open>
  The transport answers the URL with a response that is \<^verbatim>\<open>ok\<close> and whose body
  parses to \<open>data\<close>.
\<close>

definition ok_body :: "transport \<Rightarrow> string \<Rightarrow> jsval \<Rightarrow> bool" where
  "ok_body t url data \<longleftrightarrow>
     (case respond t url of Inr response \<Rightarrow> ok response \<and> json response = Inr data | Inl e \<Rightarrow> False)"

text \<open>
  The underlying failures of section 7, as what the transport answers a URL with:
  it rejects with a value, or the response has a status outside the success range,
  or \<^verbatim>\<open>response.json()\<close> rejects with a value. The root cause has a message when
  it is an \<^verbatim>\<open>Error\<close>; for a status it is the \<^verbatim>\<open>Error\<close> of lines 30, 72 and 111.
\<close>

datatype failure = TransportError thrown | HttpError rat | ParseError thrown

fun is_failure :: "failure \<Rightarrow> thrown + response \<Rightarrow> bool" where
  "is_failure (TransportError rejection) fetched = (fetched = Inl rejection)"
| "is_failure (HttpError S) fetched =
     (case fetched of Inr response \<Rightarrow> \<not> ok response \<and> status response = S | Inl e \<Rightarrow> False)"
| "is_failure (ParseError rejection) fetched =
     (case fetched of Inr response \<Rightarrow> ok response \<and> json response = Inl rejection | Inl e \<Rightarrow> False)"

fun root_cause :: "runtime \<Rightarrow> failure \<Rightarrow> string option" where
  "root_cause rt (TransportError (ErrorObj message)) = Some message"
| "root_cause rt (TransportError (NonError v)) = None"
| "root_cause rt (HttpError S) = Some (''HTTP error! status: '' @ Number_toString rt S)"
| "root_cause rt (ParseError (ErrorObj message)) = Some message"
| "root_cause rt (ParseError (NonError v)) = None"

text \<open>
  Transports for the examples. \<open>answers_with data\<close> answers every request with an
  \<^verbatim>\<open>ok\<close> response carrying \<open>data\<close>, and \<open>answers_at u r data\<close> answers the URL
  \<open>u\<close> with \<open>r\<close> and every other request as \<open>answers_with data\<close> does. The others
  answer every request with one failure, or with the body \<^verbatim>\<open>null\<close>.
\<close>

definition answers_with :: "jsval \<Rightarrow> transport" where
  "answers_with data =
     \<lparr>respond = (\<lambda>url. Inr \<lparr>ok = True, status = 200, json = Inr data\<rparr>), requested = []\<rparr>"

definition answers_at :: "string \<Rightarrow> thrown + response \<Rightarrow> jsval \<Rightarrow> transport" where
  "answers_at u r data =
     \<lparr>respond = (\<lambda>url. if url = u then r else Inr \<lparr>ok = True, status = 200, json = Inr data\<rparr>),
      requested = []\<rparr>"

definition not_found :: transport where
  "not_found = \<lparr>respond = (\<lambda>url. Inr \<lparr>ok = False, status = 404, json = Inr Null\<rparr>), requested = []\<rparr>"

definition answers_null :: transport where
  "answers_null = \<lparr>respond = (\<lambda>url. Inr \<lparr>ok = True, status = 200, json = Inr Null\<rparr>), requested = []\<rparr>"

definition network_down :: transport where
  "network_down = \<lparr>respond = (\<lambda>url. Inl (ErrorObj ''Network error'')), requested = []\<rparr>"

definition invalid_json :: transport where
  "invalid_json =
     \<lparr>respond = (\<lambda>url. Inr \<lparr>ok = True, status = 200, json = Inl (ErrorObj ''Invalid JSON'')\<rparr>),
      requested = []\<rparr>"

definition not_found_for_SBER :: transport where
  "not_found_for_SBER =
     answers_at (getMarketData_url ''SBER'' ''stock'' ''shares'')
       (Inr \<lparr>ok = False, status = 404, json = Inr Null\<rparr>) example_body"

text \<open>The error an operation with the prefix \<open>intro\<close> throws for a failure.\<close>

definition wrapped :: "runtime \<Rightarrow> string \<Rightarrow> failure \<Rightarrow> thrown" where
  "wrapped rt intro k =
     ErrorObj (intro @ (case root_cause rt k of Some message \<Rightarrow> message | None \<Rightarrow> ''Unknown error''))"

definition rejects_with_object :: transport where
  "rejects_with_object =
     \<lparr>respond = (\<lambda>url. Inl (NonError (Obj [(''message'', Str ''boom'')]))), requested = []\<rparr>"

text \<open>
  A store is closed when every reference in a cell is to a cell of the store. The
  example store holds the body of the first scenario, with an object as a value.
\<close>

fun in_store :: "store \<Rightarrow> ref_val \<Rightarrow> bool" where
  "in_store st (Ref a) = (a < length st)"
| "in_store st _ = True"

fun cell_values :: "cell \<Rightarrow> ref_val list" where
  "cell_values (ArrayCell xs) = xs"
| "cell_values (ObjectCell kvs p) = map snd kvs"

definition closed :: "store \<Rightarrow> bool" where
  "closed st \<longleftrightarrow> (\<forall>c \<in> set st. \<forall>v \<in> set (cell_values c). in_store st v)"

definition example_store :: store where
  "example_store =
     [ObjectCell [(''securities'', Ref 1), (''sessions'', Ref 1), (''marketdata'', Ref 1)] None,
      ObjectCell [(''columns'', Ref 2), (''data'', Ref 3)] None,
      ArrayCell [RStr ''SECID'', RStr ''META''],
      ArrayCell [Ref 4, Ref 5],
      ArrayCell [RStr ''SBER'', Ref 6],
      ArrayCell [RStr ''GAZP'', RNull],
      ObjectCell [(''lot'', RNum 10)] None]"

text \<open>
  The value a reference of a store stands for, the store being deep enough for the
  reading, and the stores of which that is so: every reference in a cell points to
  a later cell, as in a store the parser fills from the root down.
\<close>

definition value_of :: "store \<Rightarrow> ref_val \<Rightarrow> jsval" where
  "value_of st v = reify (length st) st v"

fun points_above :: "store \<Rightarrow> nat \<Rightarrow> ref_val \<Rightarrow> bool" where
  "points_above st a (Ref b) = (a < b \<and> b < length st)"
| "points_above st a _ = True"

definition ordered :: "store \<Rightarrow> bool" where
  "ordered st \<longleftrightarrow> (\<forall>a \<in> set [0 ..< length st]. \<forall>v \<in> set (cell_values (st ! a)). points_above st a v)"

text \<open>
  The Record in a cell of the store after decoding, as an object of section 1 whose
  values are read in the store before decoding; the Records of a result array; the
  result of the quote.
\<close>

definition record_at :: "store \<Rightarrow> store \<Rightarrow> ref_val \<Rightarrow> jsobject" where
  "record_at st0 st v =
     (case v of
        Ref a \<Rightarrow>
          (case cell_at st a of
             Some (ObjectCell props p) \<Rightarrow>
               \<lparr>own = map (\<lambda>kv. (fst kv, value_of st0 (snd kv))) props, proto = map_option (value_of st0) p\<rparr>
           | _ \<Rightarrow> empty_object)
      | _ \<Rightarrow> empty_object)"

definition records_at :: "store \<Rightarrow> store \<Rightarrow> ref_val \<Rightarrow> jsobject list" where
  "records_at st0 st v =
     (case v of
        Ref a \<Rightarrow> (case cell_at st a of Some (ArrayCell rs) \<Rightarrow> map (record_at st0 st) rs | _ \<Rightarrow> [])
      | _ \<Rightarrow> [])"

definition quote_at :: "store \<Rightarrow> store \<Rightarrow> ref_val \<Rightarrow> jsobject option" where
  "quote_at st0 st v = (if v = RNull then None else Some (record_at st0 st v))"

text \<open>The object a Record cell stands for, and the cell of a Record under construction.\<close>

definition abstract :: "store \<Rightarrow> (string \<times> ref_val) list \<Rightarrow> ref_val option \<Rightarrow> jsobject" where
  "abstract st0 props p =
     \<lparr>own = map (\<lambda>kv. (fst kv, value_of st0 (snd kv))) props, proto = map_option (value_of st0) p\<rparr>"

definition record_cell :: "store \<Rightarrow> store \<Rightarrow> nat \<Rightarrow> (string \<times> ref_val) list \<Rightarrow> ref_val option \<Rightarrow> bool" where
  "record_cell st0 st a props p \<longleftrightarrow>
     cell_at st a = Some (ObjectCell props p) \<and>
     (\<forall>x \<in> snd ` set props. in_store st0 x) \<and> (\<forall>x \<in> set_option p. in_store st0 x)"

section \<open>The loop over the columns\<close>

lemma update_fresh: "key \<notin> fst ` set al \<Longrightarrow> AList.update key v al = al @ [(key, v)]"
  by (induction al) auto

lemma set_prop_fresh:
  assumes "key \<noteq> ''__proto__''" and "key \<notin> fst ` set (own obj)"
  shows "set_prop obj key v = obj\<lparr>own := own obj @ [(key, v)]\<rparr>"
  using assms by (simp add: set_prop_def update_fresh)

text \<open>
  On distinct names, none of them \<^verbatim>\<open>__proto__\<close> and none a property yet, the loop
  appends one property for each column, in the order of the columns.
\<close>

lemma forEach_assign_fresh:
  assumes "distinct cs" and "''__proto__'' \<notin> set cs" and "set cs \<inter> fst ` set (own obj) = {}"
  shows "forEach_assign rt (map Str cs) i (Arr vs) obj =
           Inr (obj\<lparr>own := own obj @ zip cs (map (at_or_undefined vs) [i ..< i + length cs])\<rparr>)"
  using assms
proof (induction cs arbitrary: i obj)
  case Nil
  then show ?case by simp
next
  case (Cons c cs)
  let ?v = "at_or_undefined vs i"
  let ?obj = "obj\<lparr>own := own obj @ [(c, ?v)]\<rparr>"
  have step: "set_prop obj c ?v = ?obj"
    using Cons.prems by (intro set_prop_fresh) auto
  have read: "get_index rt (Arr vs) i = Inr ?v"
    by (simp add: at_or_undefined_def)
  have range: "[i ..< i + length (c # cs)] = i # [Suc i ..< Suc i + length cs]"
    by (subst upt_rec) simp
  have "forEach_assign rt (map Str (c # cs)) i (Arr vs) obj =
          forEach_assign rt (map Str cs) (Suc i) (Arr vs) ?obj"
    using step by (simp add: read ToPropertyKey_def del: get_index.simps)
  also have "\<dots> =
          Inr (?obj\<lparr>own := own ?obj @ zip cs (map (at_or_undefined vs) [Suc i ..< Suc i + length cs])\<rparr>)"
    using Cons.prems by (intro Cons.IH) auto
  also have "\<dots> =
          Inr (obj\<lparr>own := own obj @ zip (c # cs) (map (at_or_undefined vs) [i ..< i + length (c # cs)])\<rparr>)"
    unfolding range by simp
  finally show ?case .
qed

lemma at_or_undefined_pad:
  "map (at_or_undefined vs) [0 ..< n] = take n vs @ replicate (n - length vs) Undefined"
  by (auto simp: list_eq_iff_nth_eq nth_append at_or_undefined_def)

lemma decode_row_strings:
  assumes "distinct cs" and "''__proto__'' \<notin> set cs"
  shows "decode_row rt (Arr (map Str cs)) (Arr vs) =
           Inr \<lparr>own = zip cs (take (length cs) vs @ replicate (length cs - length vs) Undefined),
                proto = None\<rparr>"
  using forEach_assign_fresh [OF assms, of empty_object rt 0 vs]
  by (simp add: empty_object_def at_or_undefined_pad)

lemma zip_record_of:
  assumes "distinct cs" and "length vs = length cs"
  shows "record_of cs vs \<lparr>own = zip cs vs, proto = None\<rparr>"
proof -
  have "list_all2 (\<lambda>column v. map_of (zip cs vs) column = Some v) cs vs"
    unfolding list_all2_conv_all_nth using assms by (auto simp: set_zip)
  moreover have "fst ` set (zip cs vs) = set cs"
    using assms(2) by (simp flip: set_map)
  ultimately show ?thesis
    by (simp add: record_of_def)
qed

text \<open>The Record of the specification, by index.\<close>

lemma record_of_nth:
  "record_of columns row r \<longleftrightarrow>
     length row = length columns \<and>
     (\<forall>i < length columns. map_of (own r) (columns ! i) = Some (row ! i)) \<and>
     fst ` set (own r) = set columns \<and> proto r = None"
  by (auto simp: record_of_def list_all2_conv_all_nth)

lemma decode_row_record_of:
  assumes "distinct cs" and "''__proto__'' \<notin> set cs" and "length vs = length cs"
  shows "\<exists>r. decode_row rt (Arr (map Str cs)) (Arr vs) = Inr r \<and> record_of cs vs r"
  using decode_row_strings [OF assms(1,2), of rt vs] zip_record_of [OF assms(1,3)] assms(3)
  by simp

section \<open>The map over the rows\<close>

lemma map_rows_Inr:
  "map_rows rt columns rows = Inr rs \<longleftrightarrow>
     list_all2 (\<lambda>row r. decode_row rt columns row = Inr r) rows rs"
proof (induction rows arbitrary: rs)
  case Nil
  then show ?case by auto
next
  case (Cons row rows)
  show ?case
    unfolding list_all2_Cons1 Cons.IH [symmetric] by (auto split: sum.splits)
qed

lemma map_rows_record_of:
  assumes "distinct cs" and "''__proto__'' \<notin> set cs" and "\<forall>vs \<in> set rows. length vs = length cs"
  shows "\<exists>rs. map_rows rt (Arr (map Str cs)) (map Arr rows) = Inr rs \<and> list_all2 (record_of cs) rows rs"
  using assms(3)
proof (induction rows)
  case Nil
  then show ?case by simp
next
  case (Cons vs rows)
  then obtain rs where rs: "map_rows rt (Arr (map Str cs)) (map Arr rows) = Inr rs"
      "list_all2 (record_of cs) rows rs" by auto
  from Cons.prems obtain r where r: "decode_row rt (Arr (map Str cs)) (Arr vs) = Inr r" "record_of cs vs r"
    using decode_row_record_of [OF assms(1,2), of vs rt] by auto
  show ?case using rs r by simp
qed

text \<open>On a body that holds a table, the guards pass and the decode step is the map over the rows.\<close>

lemma decode_many_table:
  assumes "map_of body resource = Some (Obj table)"
    and "map_of table ''columns'' = Some columns"
    and "map_of table ''data'' = Some (Arr rows)"
  shows "decode_many rt resource (Obj body) = map_rows rt columns rows"
  using assms by (simp add: decode_many_def)

lemma getMarketData_table:
  assumes "map_of body ''marketdata'' = Some (Obj table)"
    and "map_of table ''columns'' = Some columns"
    and "map_of table ''data'' = Some (Arr (row # rest))"
  shows "getMarketData_decode rt (Obj body) =
           (case decode_row rt columns row of Inl e \<Rightarrow> Inl e | Inr r \<Rightarrow> Inr (Some r))"
  using assms by (simp add: getMarketData_decode_def)

text \<open>The definitions an evaluation of a decode step unfolds.\<close>

lemmas eval_defs =
  getSecurities_decode_def getTradingSessions_decode_def getMarketData_decode_def decode_many_def
  ToPropertyKey_def set_prop_def empty_object_def reaches_proto_setter_def

section \<open>Decode correctness\<close>

text \<open>
  Claim C1, as amended. For every columns array of \<open>n\<close> pairwise distinct names, none
  of them \<^verbatim>\<open>__proto__\<close>, and every row of length \<open>n\<close> of the data array, the decode
  step of \<^verbatim>\<open>getSecurities\<close>, \<^verbatim>\<open>getTradingSessions\<close> and \<^verbatim>\<open>getMarketData\<close>
  (for the first row) produces a Record that maps \<open>columns[i]\<close> to \<open>row[i]\<close> for
  every index \<open>i < n\<close>, with no other field, and with the values as they are in
  the row.
\<close>

theorem decode_correctness:
  assumes "map_of table ''columns'' = Some (Arr (map Str cs))"
    and "map_of table ''data'' = Some (Arr (map Arr rows))"
    and "distinct cs"
    and "''__proto__'' \<notin> set cs"
    and "\<forall>vs \<in> set rows. length vs = length cs"
  shows "(map_of body ''securities'' = Some (Obj table) \<longrightarrow>
            (\<exists>rs. getSecurities_decode rt (Obj body) = Inr rs \<and> list_all2 (record_of cs) rows rs)) \<and>
         (map_of body ''sessions'' = Some (Obj table) \<longrightarrow>
            (\<exists>rs. getTradingSessions_decode rt (Obj body) = Inr rs \<and> list_all2 (record_of cs) rows rs)) \<and>
         (map_of body ''marketdata'' = Some (Obj table) \<longrightarrow> rows \<noteq> [] \<longrightarrow>
            (\<exists>r. getMarketData_decode rt (Obj body) = Inr (Some r) \<and> record_of cs (hd rows) r))"
proof (intro conjI impI)
  assume "map_of body ''securities'' = Some (Obj table)"
  then show "\<exists>rs. getSecurities_decode rt (Obj body) = Inr rs \<and> list_all2 (record_of cs) rows rs"
    using map_rows_record_of [OF assms(3,4,5), of rt] assms(1,2)
    by (simp add: getSecurities_decode_def decode_many_table)
next
  assume "map_of body ''sessions'' = Some (Obj table)"
  then show "\<exists>rs. getTradingSessions_decode rt (Obj body) = Inr rs \<and> list_all2 (record_of cs) rows rs"
    using map_rows_record_of [OF assms(3,4,5), of rt] assms(1,2)
    by (simp add: getTradingSessions_decode_def decode_many_table)
next
  assume key: "map_of body ''marketdata'' = Some (Obj table)" and "rows \<noteq> []"
  then obtain vs rest where rows: "rows = vs # rest" by (cases rows) auto
  then have "length vs = length cs" using assms(5) by simp
  then obtain r where "decode_row rt (Arr (map Str cs)) (Arr vs) = Inr r" "record_of cs vs r"
    using decode_row_record_of [OF assms(3,4), of vs rt] by auto
  moreover have "map_of table ''data'' = Some (Arr (Arr vs # map Arr rest))"
    using assms(2) rows by simp
  ultimately show "\<exists>r. getMarketData_decode rt (Obj body) = Inr (Some r) \<and> record_of cs (hd rows) r"
    using getMarketData_table [OF key assms(1), of "Arr vs" "map Arr rest" rt] rows by simp
qed

theorem decode_correctness_witness:
  "distinct [''SECID'', ''BOARDID'', ''SHORTNAME'', ''PREVPRICE''] \<and>
   ''__proto__'' \<notin> set [''SECID'', ''BOARDID'', ''SHORTNAME'', ''PREVPRICE''] \<and>
   getSecurities_decode example_runtime example_body =
     Inr [\<lparr>own = [(''SECID'', Str ''SBER''), (''BOARDID'', Str ''TQBR''), (''SHORTNAME'', Str ''Sberbank''),
                  (''PREVPRICE'', Num 250.5)], proto = None\<rparr>,
          \<lparr>own = [(''SECID'', Str ''GAZP''), (''BOARDID'', Str ''TQBR''), (''SHORTNAME'', Str ''Gazprom''),
                  (''PREVPRICE'', Num 180.2)], proto = None\<rparr>] \<and>
   getTradingSessions_decode example_runtime example_body = getSecurities_decode example_runtime example_body \<and>
   getMarketData_decode example_runtime example_body =
     Inr (Some \<lparr>own = [(''SECID'', Str ''SBER''), (''BOARDID'', Str ''TQBR''), (''SHORTNAME'', Str ''Sberbank''),
                  (''PREVPRICE'', Num 250.5)], proto = None\<rparr>) \<and>
   record_of [''SECID'', ''BOARDID'', ''SHORTNAME'', ''PREVPRICE'']
     [Str ''SBER'', Str ''TQBR'', Str ''Sberbank'', Num 250.5]
     \<lparr>own = [(''SECID'', Str ''SBER''), (''BOARDID'', Str ''TQBR''), (''SHORTNAME'', Str ''Sberbank''),
                  (''PREVPRICE'', Num 250.5)], proto = None\<rparr>"
  using decode_correctness [of example_table "[''SECID'', ''BOARDID'', ''SHORTNAME'', ''PREVPRICE'']"
     "[[Str ''SBER'', Str ''TQBR'', Str ''Sberbank'', Num 250.5],
       [Str ''GAZP'', Str ''TQBR'', Str ''Gazprom'', Num 180.2]]"
     "[(''securities'', Obj example_table), (''sessions'', Obj example_table), (''marketdata'', Obj example_table)]"
     example_runtime]
  by (simp add: example_table_def example_body_def record_of_def eval_defs)

text \<open>
  Claim C1 as stated, for every columns array, fails on the code. With a name that
  occurs twice, the later column overwrites the earlier: \<^verbatim>\<open>columns = ["A", "A"]\<close>
  and \<^verbatim>\<open>row = [1, 2]\<close> give \<^verbatim>\<open>{A: 2}\<close>, which does not map \<^verbatim>\<open>columns[0]\<close> to
  \<^verbatim>\<open>row[0]\<close>. With the name \<^verbatim>\<open>__proto__\<close>, the write goes to the accessor of
  \<^verbatim>\<open>Object.prototype\<close>, which ignores a number: the object gets no field.
\<close>

theorem decode_correctness_counterexample:
  "getSecurities_decode example_runtime
     (Obj [(''securities'', Obj [(''columns'', Arr [Str ''A'', Str ''A'']), (''data'', Arr [Arr [Num 1, Num 2]])])]) =
     Inr [\<lparr>own = [(''A'', Num 2)], proto = None\<rparr>] \<and>
   \<not> record_of [''A'', ''A''] [Num 1, Num 2] \<lparr>own = [(''A'', Num 2)], proto = None\<rparr> \<and>
   getSecurities_decode example_runtime
     (Obj [(''securities'', Obj [(''columns'', Arr [Str ''__proto__'']), (''data'', Arr [Arr [Num 1]])])]) =
     Inr [\<lparr>own = [], proto = None\<rparr>] \<and>
   \<not> record_of [''__proto__''] [Num 1] \<lparr>own = [], proto = None\<rparr>"
  by (simp add: record_of_def eval_defs)

section \<open>Rows shorter or longer than the columns\<close>

text \<open>
  Claim C4, as amended. For every columns array of \<open>n\<close> pairwise distinct names,
  none of them \<^verbatim>\<open>__proto__\<close>, and every row of length \<open>m\<close>, the Record has
  exactly \<open>n\<close> fields, one for each column: \<open>columns[i]\<close> is mapped to \<open>row[i]\<close> for
  \<open>i < min n m\<close> and to \<^verbatim>\<open>undefined\<close> for \<open>m \<le> i < n\<close>; the values of the row from
  index \<open>n\<close> on are dropped.
\<close>

theorem row_length_mismatch:
  assumes "map_of table ''columns'' = Some (Arr (map Str cs))"
    and "map_of table ''data'' = Some (Arr (map Arr rows))"
    and "distinct cs"
    and "''__proto__'' \<notin> set cs"
    and "map_of body ''securities'' = Some (Obj table)"
  shows "\<exists>rs. getSecurities_decode rt (Obj body) = Inr rs \<and>
           list_all2 (\<lambda>vs r. length (own r) = length cs \<and>
                       record_of cs (take (length cs) vs @ replicate (length cs - length vs) Undefined) r)
             rows rs"
proof -
  let ?pad = "\<lambda>vs. take (length cs) vs @ replicate (length cs - length vs) Undefined"
  let ?rec = "\<lambda>vs. \<lparr>own = zip cs (?pad vs), proto = None\<rparr>"
  have "map_rows rt (Arr (map Str cs)) (map Arr rows) = Inr (map ?rec rows)"
    unfolding map_rows_Inr
    by (simp add: list_all2_conv_all_nth decode_row_strings [OF assms(3,4)] del: decode_row.simps)
  moreover have "length (own (?rec vs)) = length cs \<and> record_of cs (?pad vs) (?rec vs)" for vs
    using zip_record_of [OF assms(3), of "?pad vs"] by simp
  ultimately show ?thesis
    using assms(1,2,5)
    by (simp add: getSecurities_decode_def decode_many_table list_all2_conv_all_nth)
qed

theorem row_length_mismatch_witness:
  "distinct [''A'', ''B''] \<and> ''__proto__'' \<notin> set [''A'', ''B''] \<and>
   getSecurities_decode example_runtime
     (Obj [(''securities'',
            Obj [(''columns'', Arr [Str ''A'', Str ''B'']),
                 (''data'', Arr [Arr [Num 1], Arr [Num 1, Num 2, Num 3]])])]) =
     Inr [\<lparr>own = [(''A'', Num 1), (''B'', Undefined)], proto = None\<rparr>,
          \<lparr>own = [(''A'', Num 1), (''B'', Num 2)], proto = None\<rparr>]"
  using row_length_mismatch [of "[(''columns'', Arr [Str ''A'', Str ''B'']),
                 (''data'', Arr [Arr [Num 1], Arr [Num 1, Num 2, Num 3]])]" "[''A'', ''B'']"
     "[[Num 1], [Num 1, Num 2, Num 3]]"
     "[(''securities'',
            Obj [(''columns'', Arr [Str ''A'', Str ''B'']),
                 (''data'', Arr [Arr [Num 1], Arr [Num 1, Num 2, Num 3]])])]" example_runtime]
  by (simp add: eval_defs)

text \<open>
  Claim C4 as stated fails for a row shorter than the columns: the loop runs over
  the columns, not over the shorter of the two, so \<^verbatim>\<open>columns = ["A", "B"]\<close> and
  \<^verbatim>\<open>row = [1]\<close> give an object with the two fields \<^verbatim>\<open>A\<close> and \<^verbatim>\<open>B\<close>, the second
  bound to \<^verbatim>\<open>undefined\<close>, where the claim has one field.
\<close>

theorem row_length_mismatch_counterexample:
  "getSecurities_decode example_runtime
     (Obj [(''securities'', Obj [(''columns'', Arr [Str ''A'', Str ''B'']), (''data'', Arr [Arr [Num 1]])])]) =
     Inr [\<lparr>own = [(''A'', Num 1), (''B'', Undefined)], proto = None\<rparr>] \<and>
   length (own \<lparr>own = [(''A'', Num 1), (''B'', Undefined)], proto = None\<rparr>) \<noteq>
     min (length [''A'', ''B'']) (length [Num 1])"
  by (simp add: eval_defs)

section \<open>Order preservation\<close>

lemma forEach_assign_total:
  "\<exists>obj'. forEach_assign rt (map Str cs) i (Arr vs) obj = Inr obj'"
  by (induction cs arbitrary: i obj) (simp_all add: ToPropertyKey_def)

lemma decode_row_total: "\<exists>r. decode_row rt (Arr (map Str cs)) (Arr vs) = Inr r"
  by (simp add: forEach_assign_total)




section \<open>Missing and empty structure\<close>

lemma not_truthy_iff: "\<not> truthy v \<longleftrightarrow> v \<in> {Undefined, Null, Bool False, Num 0, Str []}"
  by (cases v) auto

lemma get_prop_field:
  "v \<noteq> Null \<Longrightarrow> v \<noteq> Undefined \<Longrightarrow> name \<noteq> ''length'' \<Longrightarrow> get_prop v name = Inr (field v name)"
  by (cases v) (auto simp: field_def)

lemma field_absent:
  assumes "\<not> has_key v name"
  shows "field v name = Undefined"
proof (cases v)
  case (Obj kvs)
  then have "name \<notin> fst ` set kvs"
    using assms by (simp add: has_key_def)
  then have "map_of kvs name = None"
    by (simp add: map_of_eq_None_iff)
  then show ?thesis
    using Obj by (simp add: field_def)
qed (simp_all add: field_def)

lemma decode_many_guard:
  assumes "data \<noteq> Null" and "data \<noteq> Undefined" and "resource \<noteq> ''length''"
    and "\<not> truthy (field data resource) \<or> \<not> truthy (field (field data resource) ''data'')"
  shows "decode_many rt resource data = Inr []"
proof (cases "truthy (field data resource)")
  case False
  then show ?thesis
    using assms by (simp add: decode_many_def get_prop_field)
next
  case True
  then have "field data resource \<noteq> Null" "field data resource \<noteq> Undefined" by auto
  then show ?thesis
    using assms True by (simp add: decode_many_def get_prop_field)
qed

lemma decode_many_empty:
  assumes "data \<noteq> Null" and "data \<noteq> Undefined" and "resource \<noteq> ''length''"
    and "field (field data resource) ''data'' = Arr []"
  shows "decode_many rt resource data = Inr []"
proof -
  have "field data resource \<noteq> Null" "field data resource \<noteq> Undefined"
    using assms(4) by (auto simp: field_def)
  moreover have "truthy (field data resource)"
    using assms(4) by (cases "field data resource") (auto simp: field_def)
  ultimately show ?thesis
    using assms by (simp add: decode_many_def get_prop_field)
qed

lemma getMarketData_guard:
  assumes "data \<noteq> Null" and "data \<noteq> Undefined"
    and "\<not> truthy (field data ''marketdata'') \<or> \<not> truthy (field (field data ''marketdata'') ''data'')
         \<or> field (field data ''marketdata'') ''data'' = Arr []"
  shows "getMarketData_decode rt data = Inr None"
proof (cases "truthy (field data ''marketdata'')")
  case False
  then show ?thesis
    using assms by (simp add: getMarketData_decode_def get_prop_field)
next
  case True
  then have "field data ''marketdata'' \<noteq> Null" "field data ''marketdata'' \<noteq> Undefined" by auto
  then show ?thesis
    using assms True by (auto simp: getMarketData_decode_def get_prop_field)
qed

lemma missing_or_empty_guard:
  assumes "missing_or_empty resource data"
  shows "\<not> truthy (field data resource) \<or> \<not> truthy (field (field data resource) ''data'') \<or>
        field (field data resource) ''data'' = Arr []"
  using assms field_absent [of data resource] field_absent [of "field data resource" "''data''"]
  unfolding missing_or_empty_def by fastforce

text \<open>
  Claim C2, as amended. For every parsed body other than \<^verbatim>\<open>null\<close> that lacks the
  resource key, or whose resource lacks the \<^verbatim>\<open>data\<close> key, or whose \<^verbatim>\<open>data\<close>
  array is empty, the decode step returns the empty sequence (\<^verbatim>\<open>getSecurities\<close>,
  \<^verbatim>\<open>getTradingSessions\<close>) or \<^verbatim>\<open>null\<close> (\<^verbatim>\<open>getMarketData\<close>) and does not
  throw.
\<close>

theorem empty_safety:
  assumes "data \<noteq> Null" and "data \<noteq> Undefined"
  shows "(missing_or_empty ''securities'' data \<longrightarrow> getSecurities_decode rt data = Inr []) \<and>
         (missing_or_empty ''sessions'' data \<longrightarrow> getTradingSessions_decode rt data = Inr []) \<and>
         (missing_or_empty ''marketdata'' data \<longrightarrow> getMarketData_decode rt data = Inr None)"
proof -
  have many: "decode_many rt resource data = Inr []"
    if "resource \<noteq> ''length''" and "missing_or_empty resource data" for resource
    using missing_or_empty_guard [OF that(2)]
      decode_many_guard [OF assms that(1)] decode_many_empty [OF assms that(1)]
    by blast
  have one: "getMarketData_decode rt data = Inr None" if "missing_or_empty ''marketdata'' data"
    using missing_or_empty_guard [OF that] getMarketData_guard [OF assms] by blast
  show ?thesis
    using many [of "''securities''"] many [of "''sessions''"] one
    by (simp add: getSecurities_decode_def getTradingSessions_decode_def)
qed

theorem empty_safety_witness:
  "Obj [] \<noteq> Null \<and> Obj [] \<noteq> Undefined \<and>
   missing_or_empty ''securities'' (Obj []) \<and> getSecurities_decode example_runtime (Obj []) = Inr [] \<and>
   missing_or_empty ''sessions'' (Obj []) \<and> getTradingSessions_decode example_runtime (Obj []) = Inr [] \<and>
   missing_or_empty ''marketdata'' (Obj []) \<and> getMarketData_decode example_runtime (Obj []) = Inr None \<and>
   missing_or_empty ''marketdata'' (Obj [(''marketdata'', Obj [(''columns'', Arr []), (''data'', Arr [])])]) \<and>
   getMarketData_decode example_runtime (Obj [(''marketdata'', Obj [(''columns'', Arr []), (''data'', Arr [])])]) = Inr None"
  using empty_safety [of "Obj []" example_runtime]
    empty_safety [of "Obj [(''marketdata'', Obj [(''columns'', Arr []), (''data'', Arr [])])]" example_runtime]
  by (simp add: missing_or_empty_def has_key_def field_def)

text \<open>
  Claim C2 as stated, for every parsed body, fails on the body \<^verbatim>\<open>null\<close>: it lacks
  the resource key, and \<^verbatim>\<open>data.securities\<close> throws a \<^verbatim>\<open>TypeError\<close>, which the
  operation rethrows as its own error.
\<close>

theorem empty_safety_counterexample:
  "\<not> has_key Null ''securities'' \<and>
   getSecurities_decode example_runtime Null = Inl (CannotReadProperties Null ''securities'') \<and>
   getTradingSessions_decode example_runtime Null = Inl (CannotReadProperties Null ''sessions'') \<and>
   getMarketData_decode example_runtime Null = Inl (CannotReadProperties Null ''marketdata'') \<and>
   fst (getSecurities example_runtime answers_null None None None) =
     Inl (ErrorObj (''Failed to fetch securities: '' @ node_message (CannotReadProperties Null ''securities'')))"
  by (simp add: has_key_def eval_defs getSecurities_def fetch_def response_data_def throw_type_error_def
      catch_rethrow_def example_runtime_def answers_null_def)

section \<open>Keys bound to falsy values\<close>

lemma has_key_not_nullish: "has_key v name \<Longrightarrow> v \<noteq> Null \<and> v \<noteq> Undefined"
  by (auto simp: has_key_def)

lemma falsy_bound_guard:
  assumes "falsy_bound resource data"
  shows "data \<noteq> Null \<and> data \<noteq> Undefined \<and>
         (\<not> truthy (field data resource) \<or> \<not> truthy (field (field data resource) ''data''))"
proof -
  have "field data resource \<noteq> Undefined" if "has_key (field data resource) ''data''"
    using that by (auto simp: has_key_def)
  then have "has_key data resource"
    using assms field_absent [of data resource] unfolding falsy_bound_def by blast
  then show ?thesis
    using assms has_key_not_nullish unfolding falsy_bound_def by blast
qed

lemma without_key_absent: "\<not> has_key (without_key name v) name"
  using delete_notin_dom [of name] by (cases v) (simp_all add: without_key_def has_key_def)

lemma without_key_not_nullish: "v \<noteq> Null \<Longrightarrow> v \<noteq> Undefined \<Longrightarrow> without_key name v \<noteq> Null \<and> without_key name v \<noteq> Undefined"
  by (cases v) (auto simp: without_key_def)

text \<open>
  A key bound to a falsy value takes the early return of the decode step, as the
  same body without the key does.
\<close>

lemma falsy_key_early_return:
  "(falsy_bound ''securities'' data \<longrightarrow>
      getSecurities_decode rt data = Inr [] \<and>
      getSecurities_decode rt (without_key ''securities'' data) = Inr []) \<and>
   (falsy_bound ''sessions'' data \<longrightarrow>
      getTradingSessions_decode rt data = Inr [] \<and>
      getTradingSessions_decode rt (without_key ''sessions'' data) = Inr []) \<and>
   (falsy_bound ''marketdata'' data \<longrightarrow>
      getMarketData_decode rt data = Inr None \<and>
      getMarketData_decode rt (without_key ''marketdata'' data) = Inr None)"
proof -
  have absent: "\<not> truthy (field (without_key resource data) resource)" for resource
    using field_absent [OF without_key_absent, of resource data] by simp
  have many: "decode_many rt resource data = Inr [] \<and>
              decode_many rt resource (without_key resource data) = Inr []"
    if "resource \<noteq> ''length''" and "falsy_bound resource data" for resource
  proof -
    note g = falsy_bound_guard [OF that(2)]
    then have "without_key resource data \<noteq> Null \<and> without_key resource data \<noteq> Undefined"
      using without_key_not_nullish by blast
    then show ?thesis
      using g absent [of resource] decode_many_guard [of data resource rt]
        decode_many_guard [of "without_key resource data" resource rt] that(1)
      by blast
  qed
  have one: "getMarketData_decode rt data = Inr None \<and>
             getMarketData_decode rt (without_key ''marketdata'' data) = Inr None"
    if "falsy_bound ''marketdata'' data"
  proof -
    note g = falsy_bound_guard [OF that]
    then have "without_key ''marketdata'' data \<noteq> Null \<and> without_key ''marketdata'' data \<noteq> Undefined"
      using without_key_not_nullish by blast
    then show ?thesis
      using g absent [of "''marketdata''"] getMarketData_guard [of data rt]
        getMarketData_guard [of "without_key ''marketdata'' data" rt]
      by blast
  qed
  show ?thesis
    using many [of "''securities''"] many [of "''sessions''"] one
    by (simp add: getSecurities_decode_def getTradingSessions_decode_def)
qed

section \<open>The quote: absent or the first row\<close>

lemma truthy_not_nullish: "truthy v \<Longrightarrow> v \<noteq> Null \<and> v \<noteq> Undefined"
  by auto

lemma length_zero_iff:
  assumes "truthy v"
  shows "get_prop v ''length'' = Inr (Num 0) \<longleftrightarrow> v = Arr [] \<or> field v ''length'' = Num 0"
  using assms by (cases v) (auto simp: field_def split: option.splits)

lemma get_prop_length_Inr: "truthy v \<Longrightarrow> \<exists>x. get_prop v ''length'' = Inr x"
  by (cases v) auto

lemma get_index_Inr: "truthy v \<Longrightarrow> \<exists>x. get_index rt v i = Inr x"
  by (cases v) auto

lemma getMarketData_decode_pass:
  assumes "data \<noteq> Null" and "data \<noteq> Undefined"
    and "truthy (field data ''marketdata'')"
    and "truthy (field (field data ''marketdata'') ''data'')"
    and "get_prop (field (field data ''marketdata'') ''data'') ''length'' \<noteq> Inr (Num 0)"
    and "get_index rt (field (field data ''marketdata'') ''data'') 0 = Inr row"
  shows "getMarketData_decode rt data =
           (case decode_row rt (field (field data ''marketdata'') ''columns'') row of
              Inl e \<Rightarrow> Inl e | Inr r \<Rightarrow> Inr (Some r))"
proof -
  let ?table = "field data ''marketdata''"
  let ?rows = "field ?table ''data''"
  obtain len where len: "get_prop ?rows ''length'' = Inr len"
    using get_prop_length_Inr [OF assms(4)] by blast
  have "get_prop data ''marketdata'' = Inr ?table"
    using assms(1,2) by (simp add: get_prop_field)
  moreover have "get_prop ?table ''data'' = Inr ?rows" "get_prop ?table ''columns'' = Inr (field ?table ''columns'')"
    using truthy_not_nullish [OF assms(3)] by (simp_all add: get_prop_field)
  ultimately show ?thesis
    using assms(3-6) len by (simp add: getMarketData_decode_def)
qed

text \<open>
  The decode step of the quote returns \<^verbatim>\<open>null\<close> exactly on a falsy table, falsy
  rows or rows of length 0, and otherwise what the loop makes of the first row.
\<close>

lemma quote_decode_null_or_first:
  assumes "data \<noteq> Null" and "data \<noteq> Undefined"
  shows "(getMarketData_decode rt data = Inr None \<longleftrightarrow>
            \<not> truthy (field data ''marketdata'') \<or>
            \<not> truthy (field (field data ''marketdata'') ''data'') \<or>
            field (field data ''marketdata'') ''data'' = Arr [] \<or>
            field (field (field data ''marketdata'') ''data'') ''length'' = Num 0) \<and>
         (\<forall>row rest. field (field data ''marketdata'') ''data'' = Arr (row # rest) \<longrightarrow>
            getMarketData_decode rt data =
              (case decode_row rt (field (field data ''marketdata'') ''columns'') row of
                 Inl e \<Rightarrow> Inl e | Inr r \<Rightarrow> Inr (Some r)) \<and>
            ((\<exists>cs vs. field (field data ''marketdata'') ''columns'' = Arr (map Str cs) \<and> row = Arr vs) \<longrightarrow>
               (\<exists>r. getMarketData_decode rt data = Inr (Some r))))"
proof (intro conjI allI impI)
  let ?table = "field data ''marketdata''"
  let ?rows = "field ?table ''data''"
  let ?none = "\<not> truthy ?table \<or> \<not> truthy ?rows \<or> ?rows = Arr [] \<or> field ?rows ''length'' = Num 0"
  show "getMarketData_decode rt data = Inr None \<longleftrightarrow> ?none"
  proof
    assume ?none
    then consider "\<not> truthy ?table \<or> \<not> truthy ?rows \<or> ?rows = Arr []"
      | "truthy ?table" "truthy ?rows" "field ?rows ''length'' = Num 0" by blast
    then show "getMarketData_decode rt data = Inr None"
    proof cases
      case 1
      then show ?thesis using getMarketData_guard [OF assms] by blast
    next
      case 2
      have "get_prop data ''marketdata'' = Inr ?table"
        using assms by (simp add: get_prop_field)
      moreover have "get_prop ?table ''data'' = Inr ?rows"
        using truthy_not_nullish [OF 2(1)] by (simp add: get_prop_field)
      moreover have "get_prop ?rows ''length'' = Inr (Num 0)"
        using length_zero_iff [OF 2(2)] 2(3) by simp
      ultimately show ?thesis
        using 2 by (simp add: getMarketData_decode_def)
    qed
  next
    assume none: "getMarketData_decode rt data = Inr None"
    show ?none
    proof (rule ccontr)
      assume "\<not> ?none"
      then have t: "truthy ?table" "truthy ?rows" and "?rows \<noteq> Arr []" "field ?rows ''length'' \<noteq> Num 0"
        by blast+
      then have len: "get_prop ?rows ''length'' \<noteq> Inr (Num 0)"
        using length_zero_iff [OF t(2)] by simp
      obtain row where "get_index rt ?rows 0 = Inr row"
        using get_index_Inr [OF t(2)] by blast
      then show False
        using getMarketData_decode_pass [OF assms t len] none by (simp split: sum.splits)
    qed
  qed
next
  fix row rest
  let ?table = "field data ''marketdata''"
  let ?rows = "field ?table ''data''"
  assume rows: "?rows = Arr (row # rest)"
  then have "?table \<noteq> Undefined" by (auto simp: field_def)
  then have "truthy ?table"
    using rows by (cases ?table) (auto simp: field_def)
  moreover have "truthy ?rows" "get_prop ?rows ''length'' \<noteq> Inr (Num 0)" "get_index rt ?rows 0 = Inr row"
    using rows by simp_all
  ultimately show first: "getMarketData_decode rt data =
      (case decode_row rt (field ?table ''columns'') row of Inl e \<Rightarrow> Inl e | Inr r \<Rightarrow> Inr (Some r))"
    using getMarketData_decode_pass [OF assms] by blast
  assume "\<exists>cs vs. field ?table ''columns'' = Arr (map Str cs) \<and> row = Arr vs"
  then obtain cs vs r where "field ?table ''columns'' = Arr (map Str cs)" "row = Arr vs"
    "decode_row rt (Arr (map Str cs)) (Arr vs) = Inr r"
    using decode_row_total by blast
  then show "\<exists>r. getMarketData_decode rt data = Inr (Some r)"
    using first by simp
qed

section \<open>The operations on an OK response\<close>

text \<open>
  On a response that is \<^verbatim>\<open>ok\<close> and whose body parses, an operation returns what
  its decode step returns and rethrows what the decode step throws.
\<close>

lemma response_data_ok: "ok_body t url data \<Longrightarrow> response_data rt (respond t url) = Inr data"
  by (auto simp: ok_body_def response_data_def split: sum.splits)

lemma getSecurities_ok:
  assumes "ok_body t (getSecurities_url rt (or_default (Engine_value STOCK) engine)
                       (or_default (Market_value SHARES) market) (or_default 100 limit)) data"
  shows "fst (getSecurities rt t engine market limit) =
           catch_rethrow ''Failed to fetch securities: '' (throw_type_error rt (getSecurities_decode rt data))"
  using response_data_ok [OF assms, of rt] by (simp add: getSecurities_def fetch_def Let_def)

lemma getMarketData_ok:
  assumes "ok_body t (getMarketData_url secid (or_default (Engine_value STOCK) engine)
                       (or_default (Market_value SHARES) market)) data"
  shows "fst (getMarketData rt t secid engine market) =
           catch_rethrow (''Failed to fetch market data for '' @ secid @ '': '')
             (throw_type_error rt (getMarketData_decode rt data))"
  using response_data_ok [OF assms, of rt] by (simp add: getMarketData_def fetch_def Let_def)

lemma getTradingSessions_ok:
  assumes "ok_body t (getTradingSessions_url (or_default (Engine_value STOCK) engine)
                       (or_default (Market_value SHARES) market)) data"
  shows "fst (getTradingSessions rt t engine market) =
           catch_rethrow ''Failed to fetch trading sessions: ''
             (throw_type_error rt (getTradingSessions_decode rt data))"
  using response_data_ok [OF assms, of rt] by (simp add: getTradingSessions_def fetch_def Let_def)

lemma rethrow_returns: "catch_rethrow intro (throw_type_error rt r) = Inr v \<longleftrightarrow> r = Inr v"
  by (cases r) (simp_all add: catch_rethrow_def throw_type_error_def)

lemma rethrow_throws:
  "catch_rethrow intro (throw_type_error rt (Inl e)) = Inl (ErrorObj (intro @ TypeError_message rt e))"
  by (simp add: catch_rethrow_def throw_type_error_def)

lemma ok_body_answers_with: "ok_body (answers_with data) url data"
  by (simp add: ok_body_def answers_with_def)

text \<open>The definitions an evaluation of an operation unfolds.\<close>

lemmas operation_defs =
  getSecurities_def getMarketData_def getTradingSessions_def fetch_def response_data_def
  throw_type_error_def catch_rethrow_def or_default_def Let_def



text \<open>
  Claim C10. On an OK response whose body has the resource key present and bound to
  \<^verbatim>\<open>null\<close> or another falsy value, or the \<^verbatim>\<open>data\<close> key of the resource present
  and bound to \<^verbatim>\<open>null\<close> or another falsy value, \<^verbatim>\<open>getSecurities\<close> and
  \<^verbatim>\<open>getTradingSessions\<close> return the empty sequence and \<^verbatim>\<open>getMarketData\<close> returns
  \<^verbatim>\<open>null\<close>, which is also what they return on an OK response carrying the same
  body without the resource key.
\<close>

theorem falsy_as_absent:
  "(ok_body t (getSecurities_url rt (or_default (Engine_value STOCK) engine)
                (or_default (Market_value SHARES) market) (or_default 100 limit)) data \<and>
    ok_body t' (getSecurities_url rt (or_default (Engine_value STOCK) engine)
                (or_default (Market_value SHARES) market) (or_default 100 limit))
      (without_key ''securities'' data) \<and>
    falsy_bound ''securities'' data \<longrightarrow>
      fst (getSecurities rt t engine market limit) = Inr [] \<and>
      fst (getSecurities rt t' engine market limit) = Inr []) \<and>
   (ok_body t (getTradingSessions_url (or_default (Engine_value STOCK) engine)
                (or_default (Market_value SHARES) market)) data \<and>
    ok_body t' (getTradingSessions_url (or_default (Engine_value STOCK) engine)
                (or_default (Market_value SHARES) market)) (without_key ''sessions'' data) \<and>
    falsy_bound ''sessions'' data \<longrightarrow>
      fst (getTradingSessions rt t engine market) = Inr [] \<and>
      fst (getTradingSessions rt t' engine market) = Inr []) \<and>
   (ok_body t (getMarketData_url secid (or_default (Engine_value STOCK) engine)
                (or_default (Market_value SHARES) market)) data \<and>
    ok_body t' (getMarketData_url secid (or_default (Engine_value STOCK) engine)
                (or_default (Market_value SHARES) market)) (without_key ''marketdata'' data) \<and>
    falsy_bound ''marketdata'' data \<longrightarrow>
      fst (getMarketData rt t secid engine market) = Inr None \<and>
      fst (getMarketData rt t' secid engine market) = Inr None)"
  using falsy_key_early_return [of data rt]
    getSecurities_ok [of t rt engine market limit data]
    getSecurities_ok [of t' rt engine market limit "without_key ''securities'' data"]
    getTradingSessions_ok [of t engine market data rt]
    getTradingSessions_ok [of t' engine market "without_key ''sessions'' data" rt]
    getMarketData_ok [of t secid engine market data rt]
    getMarketData_ok [of t' secid engine market "without_key ''marketdata'' data" rt]
  by (simp add: rethrow_returns)

theorem falsy_as_absent_witness:
  "falsy_bound ''securities'' null_body \<and> falsy_bound ''sessions'' null_body \<and>
   falsy_bound ''marketdata'' null_body \<and>
   ok_body (answers_with null_body) (getSecurities_url example_runtime ''stock'' ''shares'' 100) null_body \<and>
   fst (getSecurities example_runtime (answers_with null_body) None None None) = Inr [] \<and>
   fst (getTradingSessions example_runtime (answers_with null_body) None None) = Inr [] \<and>
   fst (getMarketData example_runtime (answers_with null_body) ''SBER'' None None) = Inr None \<and>
   \<not> has_key (without_key ''securities'' null_body) ''securities'' \<and>
   fst (getSecurities example_runtime (answers_with (without_key ''securities'' null_body)) None None None) =
     Inr [] \<and>
   fst (getTradingSessions example_runtime (answers_with (without_key ''sessions'' null_body)) None None) =
     Inr [] \<and>
   fst (getMarketData example_runtime (answers_with (without_key ''marketdata'' null_body)) ''SBER'' None None) =
     Inr None"
  using falsy_as_absent [where t = "answers_with null_body" and rt = example_runtime
      and engine = None and market = None and limit = None and data = null_body and secid = "''SBER''"
      and t' = "answers_with (without_key ''securities'' null_body)"]
    falsy_as_absent [where t = "answers_with null_body" and rt = example_runtime
      and engine = None and market = None and limit = None and data = null_body and secid = "''SBER''"
      and t' = "answers_with (without_key ''sessions'' null_body)"]
    falsy_as_absent [where t = "answers_with null_body" and rt = example_runtime
      and engine = None and market = None and limit = None and data = null_body and secid = "''SBER''"
      and t' = "answers_with (without_key ''marketdata'' null_body)"]
  by (simp add: null_body_def falsy_bound_def without_key_def has_key_def field_def eval_defs
      operation_defs ok_body_def answers_with_def)

text \<open>
  Claim C3, as amended. On an OK response whose parsed body is other than
  \<^verbatim>\<open>null\<close>, \<^verbatim>\<open>getMarketData\<close> returns \<^verbatim>\<open>null\<close> exactly when the value of
  \<^verbatim>\<open>marketdata\<close> is absent or falsy, or the value of its \<^verbatim>\<open>data\<close> is absent or
  falsy, or \<^verbatim>\<open>data\<close> has length 0 (the empty array, or an object with a
  \<^verbatim>\<open>length\<close> property 0). When \<^verbatim>\<open>data\<close> is an array with a first row, the
  operation returns what the loop over the columns makes of that row alone, whatever
  the later rows are, or rethrows what the loop throws; it returns a Record when the
  columns are an array of strings and the row is an array.
\<close>

theorem quote_absent_or_first_row:
  assumes "ok_body t (getMarketData_url secid (or_default (Engine_value STOCK) engine)
                       (or_default (Market_value SHARES) market)) data"
    and "data \<noteq> Null" and "data \<noteq> Undefined"
  shows "(fst (getMarketData rt t secid engine market) = Inr None \<longleftrightarrow>
            \<not> truthy (field data ''marketdata'') \<or>
            \<not> truthy (field (field data ''marketdata'') ''data'') \<or>
            field (field data ''marketdata'') ''data'' = Arr [] \<or>
            field (field (field data ''marketdata'') ''data'') ''length'' = Num 0) \<and>
         (\<forall>row rest. field (field data ''marketdata'') ''data'' = Arr (row # rest) \<longrightarrow>
            fst (getMarketData rt t secid engine market) =
              (case decode_row rt (field (field data ''marketdata'') ''columns'') row of
                 Inl e \<Rightarrow>
                   Inl (ErrorObj (''Failed to fetch market data for '' @ secid @ '': '' @
                                  TypeError_message rt e))
               | Inr r \<Rightarrow> Inr (Some r)) \<and>
            ((\<exists>cs vs. field (field data ''marketdata'') ''columns'' = Arr (map Str cs) \<and> row = Arr vs) \<longrightarrow>
               (\<exists>r. fst (getMarketData rt t secid engine market) = Inr (Some r))))"
proof -
  let ?intro = "''Failed to fetch market data for '' @ secid @ '': ''"
  note decode = quote_decode_null_or_first [OF assms(2,3), of rt]
  have op: "fst (getMarketData rt t secid engine market) =
      catch_rethrow ?intro (throw_type_error rt (getMarketData_decode rt data))"
    using getMarketData_ok [OF assms(1)] .
  have none: "fst (getMarketData rt t secid engine market) = Inr None \<longleftrightarrow>
      \<not> truthy (field data ''marketdata'') \<or>
      \<not> truthy (field (field data ''marketdata'') ''data'') \<or>
      field (field data ''marketdata'') ''data'' = Arr [] \<or>
      field (field (field data ''marketdata'') ''data'') ''length'' = Num 0"
    using decode unfolding op rethrow_returns by blast
  have first: "fst (getMarketData rt t secid engine market) =
      (case decode_row rt (field (field data ''marketdata'') ''columns'') row of
         Inl e \<Rightarrow>
           Inl (ErrorObj (''Failed to fetch market data for '' @ secid @ '': '' @ TypeError_message rt e))
       | Inr r \<Rightarrow> Inr (Some r))"
    if "field (field data ''marketdata'') ''data'' = Arr (row # rest)" for row rest
  proof -
    have "getMarketData_decode rt data =
        (case decode_row rt (field (field data ''marketdata'') ''columns'') row of
           Inl e \<Rightarrow> Inl e | Inr r \<Rightarrow> Inr (Some r))"
      using decode that by blast
    then show ?thesis
      unfolding op by (simp add: catch_rethrow_def throw_type_error_def split: sum.splits)
  qed
  have typed: "\<exists>r. fst (getMarketData rt t secid engine market) = Inr (Some r)"
    if rows: "field (field data ''marketdata'') ''data'' = Arr (row # rest)"
      and strings: "\<exists>cs vs. field (field data ''marketdata'') ''columns'' = Arr (map Str cs) \<and> row = Arr vs"
    for row rest
  proof -
    obtain r where "getMarketData_decode rt data = Inr (Some r)"
      using decode rows strings by blast
    then show ?thesis
      unfolding op by (simp add: rethrow_returns)
  qed
  show ?thesis
    using none first typed by blast
qed

theorem quote_absent_or_first_row_witness:
  "ok_body (answers_with example_body) (getMarketData_url ''SBER'' ''stock'' ''shares'') example_body \<and>
   example_body \<noteq> Null \<and> example_body \<noteq> Undefined \<and>
   field (field example_body ''marketdata'') ''data'' =
     Arr [Arr [Str ''SBER'', Str ''TQBR'', Str ''Sberbank'', Num 250.5],
          Arr [Str ''GAZP'', Str ''TQBR'', Str ''Gazprom'', Num 180.2]] \<and>
   fst (getMarketData example_runtime (answers_with example_body) ''SBER'' None None) =
     Inr (Some \<lparr>own = [(''SECID'', Str ''SBER''), (''BOARDID'', Str ''TQBR''), (''SHORTNAME'', Str ''Sberbank''),
                  (''PREVPRICE'', Num 250.5)], proto = None\<rparr>) \<and>
   \<not> truthy (field (field null_data_body ''marketdata'') ''data'') \<and>
   fst (getMarketData example_runtime (answers_with null_data_body) ''SBER'' None None) = Inr None"
  using quote_absent_or_first_row [where t = "answers_with example_body" and secid = "''SBER''"
      and engine = None and market = None and data = example_body and rt = example_runtime]
    quote_absent_or_first_row [where t = "answers_with null_data_body" and secid = "''SBER''"
      and engine = None and market = None and data = null_data_body and rt = example_runtime]
  by (simp add: example_body_def example_table_def null_data_body_def field_def eval_defs
      operation_defs ok_body_def answers_with_def)

text \<open>
  Claim C3 as stated fails in both directions. With \<^verbatim>\<open>data\<close> present and bound to
  \<^verbatim>\<open>null\<close> the operation returns \<^verbatim>\<open>null\<close>, though no key is absent and
  \<^verbatim>\<open>data\<close> is not an empty array. With a row and no \<^verbatim>\<open>columns\<close> none of the
  three conditions holds, and the operation throws where the claim has a Record.
\<close>

theorem quote_absent_or_first_row_counterexample:
  "fst (getMarketData example_runtime (answers_with null_data_body) ''SBER'' None None) = Inr None \<and>
   has_key null_data_body ''marketdata'' \<and>
   has_key (field null_data_body ''marketdata'') ''data'' \<and>
   field (field null_data_body ''marketdata'') ''data'' \<noteq> Arr [] \<and>
   has_key no_columns_body ''marketdata'' \<and>
   has_key (field no_columns_body ''marketdata'') ''data'' \<and>
   field (field no_columns_body ''marketdata'') ''data'' = Arr [Arr [Num 1]] \<and>
   fst (getMarketData example_runtime (answers_with no_columns_body) ''SBER'' None None) =
     Inl (ErrorObj (''Failed to fetch market data for SBER: '' @
                    node_message (CannotReadProperties Undefined ''forEach'')))"
  by (simp add: null_data_body_def no_columns_body_def has_key_def field_def eval_defs
      operation_defs answers_with_def example_runtime_def)

section \<open>The query URL of getSecurities\<close>

lemma join_securities_columns:
  "join_comma securities_columns =
     ''SECID,BOARDID,SHORTNAME,PREVPRICE,LOTSIZE,FACEVALUE,STATUS,BOARDNAME,DECIMALS,SECNAME,REMARKS,MARKETCODE,INSTRID,SECTORID,MINSTEP,PREVWAPRICE,FACEUNIT,PREVDATE,ISSUESIZE,ISIN,LATNAME,REGNUMBER,PREVLEGALCLOSEPRICE,CURRENCYID,SECTYPE,LISTLEVEL,SETTLEDATE''"
  by (simp add: securities_columns_def)

lemma getSecurities_url_parts:
  "getSecurities_url rt engine market limit =
     ''https://iss.moex.com/iss'' @ (''/engines/'' @ engine @ ''/markets/'' @ market @ ''/securities.json'') @
     ''?iss.meta=off&iss.only=securities&'' @
     (''securities.columns='' @ join_comma securities_columns @ ''&'') @ ''start=0'' @ ''&'' @
     (''limit='' @ Number_toString rt limit)"
  by (simp add: getSecurities_url_def MOEX_API_BASE_URL_def join_securities_columns)

lemma getSecurities_requested:
  "requested (snd (getSecurities rt t engine market limit)) =
     requested t @ [getSecurities_url rt (or_default (Engine_value STOCK) engine)
                      (or_default (Market_value SHARES) market) (or_default 100 limit)]"
  by (simp add: getSecurities_def fetch_def Let_def)

text \<open>
  Claim C6. For every engine, market and limit, the URL of \<^verbatim>\<open>getSecurities\<close>
  contains \<^verbatim>\<open>/engines/{engine}/markets/{market}/securities.json\<close>,
  \<^verbatim>\<open>limit={limit}\<close>, \<^verbatim>\<open>start=0\<close> and the 27 column names of the whitelist,
  joined with commas in the documented order. It is a function of the three inputs:
  the operation requests that URL whatever the transport holds.
\<close>

theorem url_determinism:
  "sublist (''/engines/'' @ engine @ ''/markets/'' @ market @ ''/securities.json'')
     (getSecurities_url rt engine market limit) \<and>
   sublist (''limit='' @ Number_toString rt limit) (getSecurities_url rt engine market limit) \<and>
   sublist ''start=0'' (getSecurities_url rt engine market limit) \<and>
   sublist (''securities.columns='' @ join_comma securities_columns @ ''&'')
     (getSecurities_url rt engine market limit) \<and>
   length securities_columns = 27 \<and>
   requested (snd (getSecurities rt t (Some engine) (Some market) (Some limit))) =
     requested t @ [getSecurities_url rt engine market limit]"
proof (intro conjI)
  let ?url = "getSecurities_url rt engine market limit"
  show "sublist (''/engines/'' @ engine @ ''/markets/'' @ market @ ''/securities.json'') ?url"
    unfolding getSecurities_url_parts by (rule sublist_appendI)
  have "?url = (''https://iss.moex.com/iss'' @ (''/engines/'' @ engine @ ''/markets/'' @ market @ ''/securities.json'') @
     ''?iss.meta=off&iss.only=securities&'' @
     (''securities.columns='' @ join_comma securities_columns @ ''&'') @ ''start=0'' @ ''&'') @
     (''limit='' @ Number_toString rt limit) @ []"
    unfolding getSecurities_url_parts by simp
  then show "sublist (''limit='' @ Number_toString rt limit) ?url"
    using sublist_appendI by metis
  have "?url = (''https://iss.moex.com/iss'' @ (''/engines/'' @ engine @ ''/markets/'' @ market @ ''/securities.json'') @
     ''?iss.meta=off&iss.only=securities&'' @
     (''securities.columns='' @ join_comma securities_columns @ ''&'')) @ ''start=0'' @ (''&'' @
     (''limit='' @ Number_toString rt limit))"
    unfolding getSecurities_url_parts by simp
  then show "sublist ''start=0'' ?url"
    using sublist_appendI by metis
  have "?url = (''https://iss.moex.com/iss'' @ (''/engines/'' @ engine @ ''/markets/'' @ market @ ''/securities.json'') @
     ''?iss.meta=off&iss.only=securities&'') @
     (''securities.columns='' @ join_comma securities_columns @ ''&'') @ (''start=0'' @ ''&'' @
     (''limit='' @ Number_toString rt limit))"
    unfolding getSecurities_url_parts by simp
  then show "sublist (''securities.columns='' @ join_comma securities_columns @ ''&'') ?url"
    using sublist_appendI by metis
  show "length securities_columns = 27"
    by (simp add: securities_columns_def)
  show "requested (snd (getSecurities rt t (Some engine) (Some market) (Some limit))) =
          requested t @ [?url]"
    by (simp add: getSecurities_requested or_default_def)
qed

text \<open>The URL the test suite expects for \<^verbatim>\<open>getSecurities(Engine.STOCK, Market.SHARES, 10)\<close>.\<close>

lemma getSecurities_url_test:
  "getSecurities_url example_runtime (Engine_value STOCK) (Market_value SHARES) 10 =
     ''https://iss.moex.com/iss/engines/stock/markets/shares/securities.json?iss.meta=off&iss.only=securities&securities.columns=SECID,BOARDID,SHORTNAME,PREVPRICE,LOTSIZE,FACEVALUE,STATUS,BOARDNAME,DECIMALS,SECNAME,REMARKS,MARKETCODE,INSTRID,SECTORID,MINSTEP,PREVWAPRICE,FACEUNIT,PREVDATE,ISSUESIZE,ISIN,LATNAME,REGNUMBER,PREVLEGALCLOSEPRICE,CURRENCYID,SECTYPE,LISTLEVEL,SETTLEDATE&start=0&limit=10''"
  by (simp add: getSecurities_url_def MOEX_API_BASE_URL_def example_runtime_def decimal.simps)

section \<open>Failures\<close>

lemma getMarketData_requested:
  "requested (snd (getMarketData rt t secid engine market)) =
     requested t @ [getMarketData_url secid (or_default (Engine_value STOCK) engine)
                      (or_default (Market_value SHARES) market)]"
  by (simp add: getMarketData_def fetch_def Let_def)

lemma getTradingSessions_requested:
  "requested (snd (getTradingSessions rt t engine market)) =
     requested t @ [getTradingSessions_url (or_default (Engine_value STOCK) engine)
                      (or_default (Market_value SHARES) market)]"
  by (simp add: getTradingSessions_def fetch_def Let_def)

text \<open>
  A failed exchange never reaches the decode step: what reaches the catch block is
  the rejection, or the \<^verbatim>\<open>Error\<close> thrown for the status.
\<close>

lemma response_data_failure:
  assumes "is_failure k fetched"
  shows "catch_rethrow intro (case response_data rt fetched of Inl e \<Rightarrow> Inl e | Inr data \<Rightarrow> f data) =
           Inl (wrapped rt intro k)"
proof (cases k)
  case (TransportError rejection)
  then show ?thesis
    using assms by (cases rejection) (simp_all add: response_data_def catch_rethrow_def wrapped_def)
next
  case (HttpError S)
  then show ?thesis
    using assms by (auto simp: response_data_def catch_rethrow_def wrapped_def split: sum.splits)
next
  case (ParseError rejection)
  then show ?thesis
    using assms
    by (cases rejection) (auto simp: response_data_def catch_rethrow_def wrapped_def split: sum.splits)
qed

lemma getSecurities_failure:
  assumes "is_failure k (respond t (getSecurities_url rt (or_default (Engine_value STOCK) engine)
                                     (or_default (Market_value SHARES) market) (or_default 100 limit)))"
  shows "fst (getSecurities rt t engine market limit) = Inl (wrapped rt ''Failed to fetch securities: '' k)"
  using response_data_failure [OF assms] by (simp add: getSecurities_def fetch_def Let_def)

lemma getMarketData_failure:
  assumes "is_failure k (respond t (getMarketData_url secid (or_default (Engine_value STOCK) engine)
                                     (or_default (Market_value SHARES) market)))"
  shows "fst (getMarketData rt t secid engine market) =
           Inl (wrapped rt (''Failed to fetch market data for '' @ secid @ '': '') k)"
  using response_data_failure [OF assms] by (simp add: getMarketData_def fetch_def Let_def)

lemma getTradingSessions_failure:
  assumes "is_failure k (respond t (getTradingSessions_url (or_default (Engine_value STOCK) engine)
                                     (or_default (Market_value SHARES) market)))"
  shows "fst (getTradingSessions rt t engine market) =
           Inl (wrapped rt ''Failed to fetch trading sessions: '' k)"
  using response_data_failure [OF assms] by (simp add: getTradingSessions_def fetch_def Let_def)

lemma sublist_status:
  "sublist S (a @ ''HTTP error! status: '' @ S)"
  "sublist S (a @ b @ c @ ''HTTP error! status: '' @ S)"
  using sublist_append_leftI [of S "a @ ''HTTP error! status: ''"]
    sublist_append_leftI [of S "a @ b @ c @ ''HTTP error! status: ''"]
  by simp_all

lemma fails_with_status:
  "fails_with (sublist (Number_toString rt S)) (Inl (wrapped rt a (HttpError S)))"
  "fails_with (sublist (Number_toString rt S)) (Inl (wrapped rt (a @ b @ c) (HttpError S)))"
  by (simp_all only: wrapped_def root_cause.simps option.case fails_with_def sum.case thrown.case
      sublist_status append_assoc)

text \<open>
  Claim C7. For every response that is not \<^verbatim>\<open>ok\<close>, with status \<open>S\<close>, given to the
  request an operation makes, the operation fails with an \<^verbatim>\<open>Error\<close> whose message
  includes the text of \<open>S\<close>, and it has made exactly one request.
\<close>

theorem http_status_mapping:
  "((\<exists>response. respond t (getSecurities_url rt (or_default (Engine_value STOCK) engine)
                              (or_default (Market_value SHARES) market) (or_default 100 limit)) =
                   Inr response \<and> \<not> ok response \<and> status response = S) \<longrightarrow>
      fails_with (sublist (Number_toString rt S)) (fst (getSecurities rt t engine market limit)) \<and>
      length (requested (snd (getSecurities rt t engine market limit))) = Suc (length (requested t))) \<and>
   ((\<exists>response. respond t (getMarketData_url secid (or_default (Engine_value STOCK) engine)
                              (or_default (Market_value SHARES) market)) =
                   Inr response \<and> \<not> ok response \<and> status response = S) \<longrightarrow>
      fails_with (sublist (Number_toString rt S)) (fst (getMarketData rt t secid engine market)) \<and>
      length (requested (snd (getMarketData rt t secid engine market))) = Suc (length (requested t))) \<and>
   ((\<exists>response. respond t (getTradingSessions_url (or_default (Engine_value STOCK) engine)
                              (or_default (Market_value SHARES) market)) =
                   Inr response \<and> \<not> ok response \<and> status response = S) \<longrightarrow>
      fails_with (sublist (Number_toString rt S)) (fst (getTradingSessions rt t engine market)) \<and>
      length (requested (snd (getTradingSessions rt t engine market))) = Suc (length (requested t)))"
proof (intro conjI impI)
  assume "\<exists>response. respond t (getSecurities_url rt (or_default (Engine_value STOCK) engine)
            (or_default (Market_value SHARES) market) (or_default 100 limit)) =
          Inr response \<and> \<not> ok response \<and> status response = S"
  then have "is_failure (HttpError S) (respond t (getSecurities_url rt (or_default (Engine_value STOCK) engine)
      (or_default (Market_value SHARES) market) (or_default 100 limit)))"
    by auto
  then show "fails_with (sublist (Number_toString rt S)) (fst (getSecurities rt t engine market limit))"
    by (simp only: getSecurities_failure fails_with_status)
next
  assume "\<exists>response. respond t (getMarketData_url secid (or_default (Engine_value STOCK) engine)
            (or_default (Market_value SHARES) market)) =
          Inr response \<and> \<not> ok response \<and> status response = S"
  then have "is_failure (HttpError S) (respond t (getMarketData_url secid (or_default (Engine_value STOCK) engine)
      (or_default (Market_value SHARES) market)))"
    by auto
  then show "fails_with (sublist (Number_toString rt S)) (fst (getMarketData rt t secid engine market))"
    by (simp only: getMarketData_failure fails_with_status)
next
  assume "\<exists>response. respond t (getTradingSessions_url (or_default (Engine_value STOCK) engine)
            (or_default (Market_value SHARES) market)) =
          Inr response \<and> \<not> ok response \<and> status response = S"
  then have "is_failure (HttpError S) (respond t (getTradingSessions_url (or_default (Engine_value STOCK) engine)
      (or_default (Market_value SHARES) market)))"
    by auto
  then show "fails_with (sublist (Number_toString rt S)) (fst (getTradingSessions rt t engine market))"
    by (simp only: getTradingSessions_failure fails_with_status)
qed (simp_all add: getSecurities_requested getMarketData_requested getTradingSessions_requested)

lemma example_runtime_404: "Number_toString example_runtime 404 = ''404''"
  by (simp add: example_runtime_def decimal.simps)

text \<open>
  In the witness, one transport answers every request with the status 404, and one
  answers only the quote request for \<^verbatim>\<open>SBER\<close> with it and every other request with
  an OK response.
\<close>

theorem http_status_mapping_witness:
  "(\<exists>response. respond not_found (getSecurities_url example_runtime ''stock'' ''shares'' 100) = Inr response \<and>
      \<not> ok response \<and> status response = 404) \<and>
   fst (getSecurities example_runtime not_found None None None) =
     Inl (ErrorObj ''Failed to fetch securities: HTTP error! status: 404'') \<and>
   fails_with (sublist ''404'') (fst (getSecurities example_runtime not_found None None None)) \<and>
   fails_with (sublist ''404'') (fst (getTradingSessions example_runtime not_found None None)) \<and>
   length (requested (snd (getSecurities example_runtime not_found None None None))) = 1 \<and>
   (\<exists>response. respond not_found_for_SBER (getMarketData_url ''SBER'' ''stock'' ''shares'') = Inr response \<and>
      \<not> ok response \<and> status response = 404) \<and>
   fails_with (sublist ''404'') (fst (getMarketData example_runtime not_found_for_SBER ''SBER'' None None)) \<and>
   fst (getMarketData example_runtime not_found_for_SBER ''SBER'' None None) =
     Inl (ErrorObj ''Failed to fetch market data for SBER: HTTP error! status: 404'')"
  using http_status_mapping [where t = not_found and S = 404 and rt = example_runtime
      and engine = None and market = None and limit = None and secid = "''SBER''"]
    http_status_mapping [where t = not_found_for_SBER and S = 404 and rt = example_runtime
      and engine = None and market = None and limit = None and secid = "''SBER''"]
  by (simp add: not_found_def not_found_for_SBER_def answers_at_def example_runtime_404 operation_defs)

text \<open>
  Claim C8, as amended. For every underlying failure of the request an operation
  makes (a rejection of the transport, a status that is not \<^verbatim>\<open>ok\<close>, a rejection
  of the JSON parse), the operation fails with one \<^verbatim>\<open>Error\<close> whose message names
  the operation, and the \<^verbatim>\<open>secid\<close> for \<^verbatim>\<open>getMarketData\<close>, followed by the message
  of the root cause when the root cause is an \<^verbatim>\<open>Error\<close>, and by
  \<^verbatim>\<open>Unknown error\<close> when the rejection is a value that is no \<^verbatim>\<open>Error\<close>. The result
  is the error alone: no Record reaches the caller.
\<close>

theorem error_wrapping:
  "(is_failure k (respond t (getSecurities_url rt (or_default (Engine_value STOCK) engine)
                              (or_default (Market_value SHARES) market) (or_default 100 limit))) \<longrightarrow>
      fst (getSecurities rt t engine market limit) =
        Inl (ErrorObj (''Failed to fetch securities: '' @
               (case root_cause rt k of Some message \<Rightarrow> message | None \<Rightarrow> ''Unknown error'')))) \<and>
   (is_failure k (respond t (getMarketData_url secid (or_default (Engine_value STOCK) engine)
                              (or_default (Market_value SHARES) market))) \<longrightarrow>
      fst (getMarketData rt t secid engine market) =
        Inl (ErrorObj (''Failed to fetch market data for '' @ secid @ '': '' @
               (case root_cause rt k of Some message \<Rightarrow> message | None \<Rightarrow> ''Unknown error'')))) \<and>
   (is_failure k (respond t (getTradingSessions_url (or_default (Engine_value STOCK) engine)
                              (or_default (Market_value SHARES) market))) \<longrightarrow>
      fst (getTradingSessions rt t engine market) =
        Inl (ErrorObj (''Failed to fetch trading sessions: '' @
               (case root_cause rt k of Some message \<Rightarrow> message | None \<Rightarrow> ''Unknown error''))))"
  using getSecurities_failure [of k t rt engine market limit]
    getMarketData_failure [of k t secid engine market rt]
    getTradingSessions_failure [of k t engine market rt]
  by (simp add: wrapped_def)

text \<open>
  In the witness, the transport is down for the listing, the body of the quote is
  no JSON, the sessions are not found, and the transport rejects a listing with a
  value that is no \<^verbatim>\<open>Error\<close>.
\<close>

theorem error_wrapping_witness:
  "is_failure (TransportError (ErrorObj ''Network error''))
     (respond network_down (getSecurities_url example_runtime ''stock'' ''shares'' 100)) \<and>
   fst (getSecurities example_runtime network_down None None None) =
     Inl (ErrorObj ''Failed to fetch securities: Network error'') \<and>
   is_failure (ParseError (ErrorObj ''Invalid JSON''))
     (respond invalid_json (getMarketData_url ''SBER'' ''stock'' ''shares'')) \<and>
   fst (getMarketData example_runtime invalid_json ''SBER'' None None) =
     Inl (ErrorObj ''Failed to fetch market data for SBER: Invalid JSON'') \<and>
   is_failure (HttpError 404) (respond not_found (getTradingSessions_url ''stock'' ''shares'')) \<and>
   fst (getTradingSessions example_runtime not_found None None) =
     Inl (ErrorObj ''Failed to fetch trading sessions: HTTP error! status: 404'') \<and>
   is_failure (TransportError (NonError (Obj [(''message'', Str ''boom'')])))
     (respond rejects_with_object (getSecurities_url example_runtime ''stock'' ''shares'' 100)) \<and>
   fst (getSecurities example_runtime rejects_with_object None None None) =
     Inl (ErrorObj ''Failed to fetch securities: Unknown error'')"
  using error_wrapping [where k = "TransportError (ErrorObj ''Network error'')" and t = network_down
      and rt = example_runtime and engine = None and market = None and limit = None and secid = "''SBER''"]
    error_wrapping [where k = "ParseError (ErrorObj ''Invalid JSON'')" and t = invalid_json
      and rt = example_runtime and engine = None and market = None and limit = None and secid = "''SBER''"]
    error_wrapping [where k = "HttpError 404" and t = not_found
      and rt = example_runtime and engine = None and market = None and limit = None and secid = "''SBER''"]
    error_wrapping [where k = "TransportError (NonError (Obj [(''message'', Str ''boom'')]))"
      and t = rejects_with_object
      and rt = example_runtime and engine = None and market = None and limit = None and secid = "''SBER''"]
  by (simp add: network_down_def invalid_json_def not_found_def rejects_with_object_def
      example_runtime_404 or_default_def)

text \<open>
  Claim C8 as stated, for every underlying failure, fails on a rejection with a
  value that is no \<^verbatim>\<open>Error\<close>. The transport rejects with the object
  \<^verbatim>\<open>{message: "boom"}\<close>; \<^verbatim>\<open>error instanceof Error\<close> is false, and the message of
  the operation's error is \<^verbatim>\<open>Unknown error\<close> after the prefix: it does not include
  the message of the root cause.
\<close>

theorem error_wrapping_counterexample:
  "respond rejects_with_object (getSecurities_url example_runtime ''stock'' ''shares'' 100) =
     Inl (NonError (Obj [(''message'', Str ''boom'')])) \<and>
   fst (getSecurities example_runtime rejects_with_object None None None) =
     Inl (ErrorObj ''Failed to fetch securities: Unknown error'') \<and>
   \<not> fails_with (sublist ''boom'') (fst (getSecurities example_runtime rejects_with_object None None None))"
  by (simp add: rejects_with_object_def operation_defs fails_with_def sublist_code)

section \<open>The decoders write to fresh cells only\<close>

lemma prefix_update:
  assumes "prefix xs ys" and "length xs \<le> a"
  shows "prefix xs (ys[a := c])"
proof -
  obtain zs where "ys = xs @ zs"
    using assms(1) by (auto simp: prefix_def)
  then have "ys[a := c] = xs @ zs[a - length xs := c]"
    using assms(2) by (simp add: list_update_append)
  then show ?thesis by simp
qed

lemma prefix_snoc: "prefix xs ys \<Longrightarrow> prefix xs (ys @ [c])"
  by (simp add: prefix_def) auto

lemma store_set_prop_frame:
  assumes "prefix st0 st" and "length st0 \<le> a"
  shows "prefix st0 (store_set_prop st a key v)"
  using assms by (auto simp: store_set_prop_def prefix_update split: option.splits cell.splits)

lemma store_push_frame:
  assumes "prefix st0 st" and "length st0 \<le> a"
  shows "prefix st0 (store_push st a v)"
  using assms by (auto simp: store_push_def prefix_update split: option.splits cell.splits)

lemma store_forEach_frame:
  assumes "store_forEach rt st c index n row a = (e, st')" and "prefix st0 st" and "length st0 \<le> a"
  shows "prefix st0 st'"
  using assms
proof (induction n arbitrary: st index)
  case 0
  then show ?case by simp
next
  case (Suc n)
  show ?case
    using Suc.prems Suc.IH store_set_prop_frame [OF Suc.prems(2,3)]
    by (auto split: option.splits cell.splits sum.splits if_splits)
qed

lemma store_decode_row_frame:
  assumes "store_decode_row rt st columns row = (res, st')" and "prefix st0 st"
  shows "prefix st0 st'"
proof -
  have grown: "prefix st0 (st @ [ObjectCell [] None])"
    using assms(2) by (rule prefix_snoc)
  have fresh: "length st0 \<le> length st"
    using assms(2) by (rule prefix_length_le)
  show ?thesis
    using assms(1) grown store_forEach_frame [OF _ grown fresh]
    by (auto simp: store_decode_row_def alloc_def
        split: ref_val.splits option.splits cell.splits prod.splits)
qed

lemma store_map_frame:
  assumes "store_map rt st columns r index n result = (e, st')"
    and "prefix st0 st" and "length st0 \<le> result"
  shows "prefix st0 st'"
  using assms
proof (induction n arbitrary: st index)
  case 0
  then show ?case by simp
next
  case (Suc n)
  have step: "prefix st0 (store_push st1 result v)"
    if "store_decode_row rt st columns row = (res, st1)" for row res st1 v
    using store_push_frame [OF store_decode_row_frame [OF that Suc.prems(2)] Suc.prems(3)] .
  have hole: "prefix st0 (store_push st result RUndefined)"
    using store_push_frame [OF Suc.prems(2,3)] .
  show ?case
    using Suc.prems Suc.IH step hole store_decode_row_frame [OF _ Suc.prems(2)]
    by (auto split: option.splits cell.splits sum.splits prod.splits if_splits)
qed

lemma store_rows_map_frame:
  assumes "store_rows_map rt st columns rows = (res, st')" and "prefix st0 st"
  shows "prefix st0 st'"
proof -
  have grown: "prefix st0 (st @ [ArrayCell []])"
    using assms(2) by (rule prefix_snoc)
  have fresh: "length st0 \<le> length st"
    using assms(2) by (rule prefix_length_le)
  show ?thesis
    using assms store_map_frame [OF _ grown fresh]
    by (auto simp: store_rows_map_def alloc_def
        split: ref_val.splits option.splits cell.splits prod.splits)
qed

lemma store_decode_many_frame:
  assumes "store_decode_many rt st resource data = (res, st')"
  shows "prefix st st'"
  using assms store_rows_map_frame [of rt st _ _ res st' st]
  by (auto simp: store_decode_many_def alloc_def split: sum.splits if_splits)

lemma store_getMarketData_decode_frame:
  assumes "store_getMarketData_decode rt st data = (res, st')"
  shows "prefix st st'"
  using assms store_decode_row_frame [of rt st _ _ res st' st]
  by (auto simp: store_getMarketData_decode_def split: sum.splits if_splits)

lemma cell_at_prefix:
  assumes "prefix st st'" and "a < length st"
  shows "cell_at st' a = cell_at st a"
proof -
  obtain zs where "st' = st @ zs"
    using assms(1) by (auto simp: prefix_def)
  then show ?thesis
    using assms(2) by (simp add: cell_at_def nth_append)
qed

lemma reify_prefix:
  assumes "prefix st st'" and "closed st" and "in_store st v"
  shows "reify n st' v = reify n st v"
  using assms(3)
proof (induction n arbitrary: v)
  case 0
  then show ?case by (cases v) simp_all
next
  case (Suc n)
  show ?case
  proof (cases v)
    case (Ref a)
    then have a: "a < length st" using Suc.prems by simp
    then have inside: "\<forall>x \<in> set (cell_values (st ! a)). in_store st x"
      using assms(2) nth_mem [of a st] unfolding closed_def by blast
    have at: "cell_at st' a = Some (st ! a)" "cell_at st a = Some (st ! a)"
      using cell_at_prefix [OF assms(1) a] a by (simp_all add: cell_at_def)
    show ?thesis
    proof (cases "st ! a")
      case (ArrayCell xs)
      then show ?thesis
        using inside Suc.IH Ref at by simp
    next
      case (ObjectCell kvs p)
      then show ?thesis
        using inside Suc.IH Ref at by simp
    qed
  qed simp_all
qed

text \<open>
  Claim C9. For every store and every body in it, the decode step of each of the
  three operations, whether it returns or throws, leaves every cell that was there
  before as it was: the store after is the store before with new cells appended.
  So the columns array, the data array and every row are unchanged, and the body
  read off the store after decoding equals the body read off it before.
\<close>

theorem decoders_do_not_mutate:
  "prefix st (snd (store_getSecurities_decode rt st data)) \<and>
   prefix st (snd (store_getTradingSessions_decode rt st data)) \<and>
   prefix st (snd (store_getMarketData_decode rt st data)) \<and>
   (closed st \<and> in_store st data \<longrightarrow>
      (\<forall>n. reify n (snd (store_getSecurities_decode rt st data)) data = reify n st data \<and>
           reify n (snd (store_getTradingSessions_decode rt st data)) data = reify n st data \<and>
           reify n (snd (store_getMarketData_decode rt st data)) data = reify n st data))"
proof -
  have 1: "prefix st (snd (store_getSecurities_decode rt st data))"
    using store_decode_many_frame [OF prod.collapse [symmetric]]
    by (simp add: store_getSecurities_decode_def)
  have 2: "prefix st (snd (store_getTradingSessions_decode rt st data))"
    using store_decode_many_frame [OF prod.collapse [symmetric]]
    by (simp add: store_getTradingSessions_decode_def)
  have 3: "prefix st (snd (store_getMarketData_decode rt st data))"
    using store_getMarketData_decode_frame [OF prod.collapse [symmetric]] .
  show ?thesis
    using 1 2 3 reify_prefix by blast
qed

text \<open>The definitions an evaluation on a store unfolds.\<close>

lemmas store_eval_defs =
  store_getSecurities_decode_def store_getTradingSessions_decode_def store_getMarketData_decode_def
  store_decode_many_def store_rows_map_def store_decode_row_def store_push_def store_set_prop_def
  store_reaches_proto_setter_def store_ToPropertyKey_def ToPropertyKey_def alloc_def cell_at_def

theorem decoders_do_not_mutate_witness:
  "closed example_store \<and> in_store example_store (Ref 0) \<and>
   snd (store_getSecurities_decode example_runtime example_store (Ref 0)) =
     example_store @
       [ArrayCell [Ref 8, Ref 9],
        ObjectCell [(''SECID'', RStr ''SBER''), (''META'', Ref 6)] None,
        ObjectCell [(''SECID'', RStr ''GAZP''), (''META'', RNull)] None] \<and>
   reify 4 (snd (store_getSecurities_decode example_runtime example_store (Ref 0))) (Ref 0) =
     reify 4 example_store (Ref 0) \<and>
   store_getMarketData_decode example_runtime example_store (Ref 0) =
     (Inr (Ref 7), example_store @ [ObjectCell [(''SECID'', RStr ''SBER''), (''META'', Ref 6)] None]) \<and>
   reify 4 (snd (store_getMarketData_decode example_runtime example_store (Ref 0))) (Ref 0) =
     reify 4 example_store (Ref 0)"
  using decoders_do_not_mutate [of example_store example_runtime "Ref 0"]
  by (simp add: example_store_def closed_def store_eval_defs numeral_eq_Suc)

section \<open>The decoders on a store compute what the decoders on values compute\<close>

text \<open>
  The two descriptions of the decode step agree: on an ordered store, the decoders
  on values, run on the value of the body, return the values of what the decoders
  on the store return.
\<close>

lemma ordered_children:
  assumes "ordered st" and "a < length st" and "v \<in> set (cell_values (st ! a))"
  shows "points_above st a v"
  using assms by (simp add: ordered_def)

lemma points_above_in_store: "points_above st a v \<Longrightarrow> in_store st v"
  by (cases v) simp_all

lemma ordered_closed: "ordered st \<Longrightarrow> closed st"
  unfolding closed_def
  by (metis in_set_conv_nth ordered_children points_above_in_store)

lemma reify_primitive: "\<forall>a. v \<noteq> Ref a \<Longrightarrow> reify n st v = reify m st v"
  by (cases v) simp_all

lemma reify_ordered:
  assumes "ordered st"
  shows "a < length st \<Longrightarrow> length st - a \<le> n \<Longrightarrow> length st - a \<le> m \<Longrightarrow>
         reify n st (Ref a) = reify m st (Ref a)"
proof (induction n arbitrary: m a)
  case 0
  then show ?case by simp
next
  case (Suc n)
  then obtain m' where m: "m = Suc m'" by (cases m) auto
  have children: "reify n st v = reify m' st v" if "v \<in> set (cell_values (st ! a))" for v
  proof (cases v)
    case (Ref b)
    then have "a < b" "b < length st"
      using ordered_children [OF assms Suc.prems(1) that] by simp_all
    then show ?thesis
      using Suc.IH [of b m'] Suc.prems m Ref by simp
  qed simp_all
  show ?case
  proof (cases "st ! a")
    case (ArrayCell xs)
    then show ?thesis
      using children Suc.prems(1) m by (simp add: cell_at_def)
  next
    case (ObjectCell kvs p)
    then show ?thesis
      using children Suc.prems(1) m by (simp add: cell_at_def)
  qed
qed

lemma reify_enough:
  assumes "ordered st" and "in_store st v" and "length st \<le> n"
  shows "reify n st v = value_of st v"
proof (cases v)
  case (Ref a)
  then show ?thesis
    using reify_ordered [OF assms(1), of a n "length st"] assms(2,3) by (simp add: value_of_def)
qed (simp_all add: value_of_def)

lemma value_of_simps [simp]:
  "value_of st RUndefined = Undefined" "value_of st RNull = Null" "value_of st (RBool b) = Bool b"
  "value_of st (RNum q) = Num q" "value_of st (RStr s) = Str s"
  by (simp_all add: value_of_def)

lemma value_of_Ref:
  assumes "ordered st" and "a < length st"
  shows "value_of st (Ref a) =
           (case st ! a of
              ArrayCell xs \<Rightarrow> Arr (map (value_of st) xs)
            | ObjectCell kvs p \<Rightarrow> Obj (map (\<lambda>kv. (fst kv, value_of st (snd kv))) kvs))"
proof -
  have "value_of st (Ref a) = reify (Suc (length st)) st (Ref a)"
    using reify_enough [OF assms(1), of "Ref a" "Suc (length st)"] assms(2) by simp
  then show ?thesis
    using assms(2) by (simp add: cell_at_def value_of_def split: cell.splits)
qed

lemma value_of_grown:
  assumes "ordered st" and "prefix st st'" and "in_store st v"
  shows "reify (length st') st' v = value_of st v"
  using reify_prefix [OF assms(2) ordered_closed [OF assms(1)] assms(3)]
    reify_enough [OF assms(1,3) prefix_length_le [OF assms(2)]]
  by simp

lemma map_of_values:
  "map_of (map (\<lambda>kv. (fst kv, f (snd kv))) kvs) name = map_option f (map_of kvs name)"
  by (induction kvs) auto

lemma in_store_lookup:
  assumes "ordered st" and "a < length st" and "st ! a = ObjectCell kvs p" and "map_of kvs name = Some x"
  shows "in_store st x"
proof -
  have "x \<in> set (cell_values (st ! a))"
    using map_of_SomeD [OF assms(4)] assms(3) by force
  then show ?thesis
    using ordered_children [OF assms(1,2)] points_above_in_store by blast
qed

lemma in_store_nth:
  assumes "ordered st" and "a < length st" and "st ! a = ArrayCell xs" and "i < length xs"
  shows "in_store st (xs ! i)"
  using ordered_children [OF assms(1,2), of "xs ! i"] assms(3,4) points_above_in_store by simp

lemma store_get_prop_in_store:
  assumes "ordered st" and "in_store st v" and "store_get_prop st v name = Inr x"
  shows "in_store st x"
  using assms in_store_lookup [OF assms(1)]
  by (cases v) (auto simp: cell_at_def split: cell.splits option.splits if_splits)

lemma store_get_index_in_store:
  assumes "ordered st" and "in_store st v" and "store_get_index rt st v i = Inr x"
  shows "in_store st x"
  using assms in_store_lookup [OF assms(1)] in_store_nth [OF assms(1)]
  by (cases v) (auto simp: cell_at_def split: cell.splits option.splits if_splits)

lemma get_prop_value_of:
  assumes "ordered st" and "in_store st v"
  shows "get_prop (value_of st v) name =
           (case store_get_prop st v name of Inl e \<Rightarrow> Inl e | Inr x \<Rightarrow> Inr (value_of st x))"
  using assms
  by (cases v) (auto simp: value_of_Ref cell_at_def map_of_values split: cell.splits option.splits)

lemma get_index_value_of:
  assumes "ordered st" and "in_store st v"
  shows "get_index rt (value_of st v) i =
           (case store_get_index rt st v i of Inl e \<Rightarrow> Inl e | Inr x \<Rightarrow> Inr (value_of st x))"
  using assms
  by (cases v) (auto simp: value_of_Ref cell_at_def map_of_values split: cell.splits option.splits)

lemma truthy_value_of:
  assumes "ordered st" and "in_store st v"
  shows "truthy (value_of st v) = store_truthy v"
  using assms by (cases v) (auto simp: value_of_Ref split: cell.splits)

lemma value_of_zero:
  assumes "ordered st" and "in_store st v"
  shows "value_of st v = Num 0 \<longleftrightarrow> v = RNum 0"
  using assms by (cases v) (auto simp: value_of_Ref split: cell.splits)

lemma record_at_cell:
  "cell_at st a = Some (ObjectCell props p) \<Longrightarrow> record_at st0 st (Ref a) = abstract st0 props p"
  by (simp add: record_at_def abstract_def)

lemma update_values:
  "map (\<lambda>kv. (fst kv, f (snd kv))) (AList.update k v al) =
     AList.update k (f v) (map (\<lambda>kv. (fst kv, f (snd kv))) al)"
  by (induction al) auto

lemma update_in_store:
  assumes "\<forall>x \<in> snd ` set al. P x" and "P v"
  shows "\<forall>x \<in> snd ` set (AList.update k v al). P x"
  using assms by (induction al) auto

lemma reaches_proto_setter_sim:
  assumes "ordered st0" and "prefix st0 st" and "\<forall>x \<in> set_option p. in_store st0 x"
  shows "store_reaches_proto_setter st props p = reaches_proto_setter (abstract st0 props p)"
proof (cases p)
  case None
  then show ?thesis
    by (simp add: store_reaches_proto_setter_def reaches_proto_setter_def abstract_def map_of_values)
next
  case (Some x)
  show ?thesis
  proof (cases x)
    case (Ref b)
    then have b: "b < length st0" using assms(3) Some by simp
    then have "cell_at st b = Some (st0 ! b)"
      using cell_at_prefix [OF assms(2) b] by (simp add: cell_at_def)
    then show ?thesis
      using Some Ref value_of_Ref [OF assms(1) b]
      by (simp add: store_reaches_proto_setter_def reaches_proto_setter_def abstract_def map_of_values
          split: cell.splits)
  qed (simp_all add: Some store_reaches_proto_setter_def reaches_proto_setter_def abstract_def map_of_values)
qed

lemma is_reference_or_null_sim:
  assumes "ordered st0" and "in_store st0 v"
  shows "is_reference_or_null v = is_object_or_null (value_of st0 v)"
  using assms by (cases v) (auto simp: value_of_Ref split: cell.splits)

lemma store_set_prop_sim:
  assumes "ordered st0" and "prefix st0 st" and "record_cell st0 st a props p" and "in_store st0 v"
  shows "\<exists>props' p'. record_cell st0 (store_set_prop st a key v) a props' p' \<and>
           abstract st0 props' p' = set_prop (abstract st0 props p) key (value_of st0 v)"
proof -
  have a: "a < length st" "st ! a = ObjectCell props p"
    using assms(3) by (auto simp: record_cell_def cell_at_def split: if_splits)
  have inside: "\<forall>x \<in> snd ` set props. in_store st0 x" "\<forall>x \<in> set_option p. in_store st0 x"
    using assms(3) by (auto simp: record_cell_def)
  note reach = reaches_proto_setter_sim [OF assms(1,2) inside(2), of props]
  note isref = is_reference_or_null_sim [OF assms(1,4)]
  consider (setter) "key = ''__proto__''" "store_reaches_proto_setter st props p" "is_reference_or_null v"
    | (ignored) "key = ''__proto__''" "store_reaches_proto_setter st props p" "\<not> is_reference_or_null v"
    | (data) "\<not> (key = ''__proto__'' \<and> store_reaches_proto_setter st props p)"
    by blast
  then show ?thesis
  proof cases
    case setter
    then have "record_cell st0 (store_set_prop st a key v) a props (Some v)"
      using a inside assms(4) by (simp add: record_cell_def store_set_prop_def cell_at_def)
    moreover have "abstract st0 props (Some v) = set_prop (abstract st0 props p) key (value_of st0 v)"
      using setter reach isref by (simp add: set_prop_def abstract_def)
    ultimately show ?thesis by blast
  next
    case ignored
    then have "record_cell st0 (store_set_prop st a key v) a props p"
      using a inside by (simp add: record_cell_def store_set_prop_def cell_at_def)
    moreover have "abstract st0 props p = set_prop (abstract st0 props p) key (value_of st0 v)"
      using ignored reach isref by (simp add: set_prop_def)
    ultimately show ?thesis by blast
  next
    case data
    then have "record_cell st0 (store_set_prop st a key v) a (AList.update key v props) p"
      using a inside update_in_store [OF inside(1) assms(4), of key]
      by (auto simp: record_cell_def store_set_prop_def cell_at_def)
    moreover have "abstract st0 (AList.update key v props) p =
        set_prop (abstract st0 props p) key (value_of st0 v)"
      using data reach by (auto simp: set_prop_def abstract_def update_values)
    ultimately show ?thesis by blast
  qed
qed

lemma store_get_index_grown:
  assumes "prefix st0 st" and "in_store st0 v"
  shows "store_get_index rt st v i = store_get_index rt st0 v i"
  using assms cell_at_prefix [OF assms(1)] by (cases v) simp_all

lemma store_get_prop_grown:
  assumes "prefix st0 st" and "in_store st0 v"
  shows "store_get_prop st v name = store_get_prop st0 v name"
  using assms cell_at_prefix [OF assms(1)] by (cases v) simp_all

lemma store_ToPropertyKey_grown:
  assumes "ordered st0" and "prefix st0 st" and "in_store st0 v"
  shows "store_ToPropertyKey rt st v = ToPropertyKey rt (value_of st0 v)"
  using value_of_grown [OF assms] by (simp add: store_ToPropertyKey_def)

lemma store_set_prop_length [simp]: "length (store_set_prop st a key v) = length st"
  by (simp add: store_set_prop_def split: option.splits cell.splits)

lemma store_forEach_sim:
  assumes "ordered st0" and "c < length st0" and "st0 ! c = ArrayCell xs" and "in_store st0 row"
    and "length st0 \<le> a"
  shows "prefix st0 st \<Longrightarrow> record_cell st0 st a props p \<Longrightarrow> index + n = length xs \<Longrightarrow>
         store_forEach rt st c index n row a = (e, st') \<Longrightarrow>
         \<exists>props' p'. record_cell st0 st' a props' p' \<and>
           forEach_assign rt (map (value_of st0) (drop index xs)) index (value_of st0 row)
             (abstract st0 props p) =
             (case e of None \<Rightarrow> Inr (abstract st0 props' p') | Some err \<Rightarrow> Inl err)"
proof (induction n arbitrary: st index props p)
  case 0
  then show ?case by auto
next
  case (Suc n)
  have index: "index < length xs" using Suc.prems(3) by simp
  have column: "cell_at st c = Some (ArrayCell xs)"
    using cell_at_prefix [OF Suc.prems(1) assms(2)] assms(2,3) by (simp add: cell_at_def)
  have here: "in_store st0 (xs ! index)"
    using in_store_nth [OF assms(1,2,3) index] .
  have drop: "drop index xs = xs ! index # drop (Suc index) xs"
    using index by (simp add: Cons_nth_drop_Suc)
  have key: "store_ToPropertyKey rt st (xs ! index) = ToPropertyKey rt (value_of st0 (xs ! index))"
    using store_ToPropertyKey_grown [OF assms(1) Suc.prems(1) here] .
  have read: "get_index rt (value_of st0 row) index =
      (case store_get_index rt st row index of Inl e \<Rightarrow> Inl e | Inr x \<Rightarrow> Inr (value_of st0 x))"
    using get_index_value_of [OF assms(1,4)] store_get_index_grown [OF Suc.prems(1) assms(4)] by simp
  show ?case
  proof (cases "store_get_index rt st row index")
    case (Inl err)
    then show ?thesis
      using Suc.prems(2,4) column index read drop by (auto intro!: exI [of _ props] exI [of _ p])
  next
    case (Inr v)
    then have v: "in_store st0 v"
      using store_get_index_in_store [OF assms(1,4)] store_get_index_grown [OF Suc.prems(1) assms(4)]
      by metis
    show ?thesis
    proof (cases "ToPropertyKey rt (value_of st0 (xs ! index))")
      case (Inl err)
      then show ?thesis
        using Suc.prems(2,4) column index read drop key Inr
        by (auto intro!: exI [of _ props] exI [of _ p])
    next
      case key': (Inr k)
      let ?st = "store_set_prop st a k v"
      obtain props' p' where step: "record_cell st0 ?st a props' p'"
          "abstract st0 props' p' = set_prop (abstract st0 props p) k (value_of st0 v)"
        using store_set_prop_sim [OF assms(1) Suc.prems(1,2) v] by blast
      have "prefix st0 ?st"
        using store_set_prop_frame [OF Suc.prems(1) assms(5)] .
      moreover have "store_forEach rt ?st c (Suc index) n row a = (e, st')"
        using Suc.prems(4) column index Inr key key' by simp
      ultimately obtain props'' p'' where "record_cell st0 st' a props'' p''"
          "forEach_assign rt (map (value_of st0) (drop (Suc index) xs)) (Suc index) (value_of st0 row)
             (abstract st0 props' p') =
             (case e of None \<Rightarrow> Inr (abstract st0 props'' p'') | Some err \<Rightarrow> Inl err)"
        using Suc.IH [OF _ step(1), of "Suc index"] Suc.prems(3) by auto
      then show ?thesis
        using read Inr key' drop step(2) by auto
    qed
  qed
qed

lemma store_decode_row_sim:
  assumes "ordered st0" and "prefix st0 st" and "in_store st0 columns" and "in_store st0 row"
    and "store_decode_row rt st columns row = (res, st')"
  shows "decode_row rt (value_of st0 columns) (value_of st0 row) =
           (case res of Inl e \<Rightarrow> Inl e | Inr v \<Rightarrow> Inr (record_at st0 st' v)) \<and>
         (\<forall>v. res = Inr v \<longrightarrow> (\<exists>a. v = Ref a \<and> length st \<le> a \<and> a < length st'))"
proof -
  let ?st1 = "st @ [ObjectCell [] None]"
  have grown: "prefix st0 ?st1"
    using assms(2) by (rule prefix_snoc)
  have fresh: "length st0 \<le> length st"
    using assms(2) by (rule prefix_length_le)
  have cell: "record_cell st0 ?st1 (length st) [] None"
    by (simp add: record_cell_def cell_at_def)
  show ?thesis
  proof (cases columns)
    case (Ref c)
    then have c: "c < length st0" using assms(3) by simp
    then have at: "cell_at ?st1 c = Some (st0 ! c)"
      using cell_at_prefix [OF grown c] by (simp add: cell_at_def)
    show ?thesis
    proof (cases "st0 ! c")
      case (ArrayCell xs)
      obtain e st2 where loop: "store_forEach rt ?st1 c 0 (length xs) row (length st) = (e, st2)"
        by (cases "store_forEach rt ?st1 c 0 (length xs) row (length st)") auto
      then obtain props' p' where sim: "record_cell st0 st2 (length st) props' p'"
          "forEach_assign rt (map (value_of st0) xs) 0 (value_of st0 row) empty_object =
             (case e of None \<Rightarrow> Inr (abstract st0 props' p') | Some err \<Rightarrow> Inl err)"
        using store_forEach_sim [OF assms(1) c ArrayCell assms(4) fresh grown cell, of 0 "length xs" rt e st2]
        by (auto simp: abstract_def empty_object_def)
      have "length st < length st2"
        using sim(1) by (auto simp: record_cell_def cell_at_def split: if_splits)
      moreover have "record_at st0 st2 (Ref (length st)) = abstract st0 props' p'"
        using sim(1) by (simp add: record_cell_def record_at_cell)
      moreover have "value_of st0 columns = Arr (map (value_of st0) xs)"
        using Ref ArrayCell value_of_Ref [OF assms(1) c] by simp
      ultimately show ?thesis
        using assms(5) Ref at ArrayCell loop sim(2)
        by (auto simp: store_decode_row_def alloc_def split: option.splits)
    next
      case (ObjectCell kvs q)
      then have "value_of st0 columns = Obj (map (\<lambda>kv. (fst kv, value_of st0 (snd kv))) kvs)"
        using Ref value_of_Ref [OF assms(1) c] by simp
      then show ?thesis
        using assms(5) Ref at ObjectCell by (auto simp: store_decode_row_def alloc_def)
    qed
  qed (use assms(5) in \<open>auto simp: store_decode_row_def alloc_def\<close>)
qed

lemma store_push_length [simp]: "length (store_push st a v) = length st"
  by (simp add: store_push_def split: option.splits cell.splits)

lemma store_push_other: "b \<noteq> a \<Longrightarrow> cell_at (store_push st a v) b = cell_at st b"
  by (simp add: store_push_def cell_at_def split: option.splits cell.splits)

lemma store_decode_row_others:
  assumes "store_decode_row rt st columns row = (res, st1)" and "b < length st"
  shows "cell_at st1 b = cell_at st b" and "length st \<le> length st1"
  using store_decode_row_frame [OF assms(1) prefix_order.order_refl] assms(2)
  by (simp_all add: cell_at_prefix prefix_length_le)

lemma store_map_others:
  "store_map rt st columns r index n result = (e, st') \<Longrightarrow> b < length st \<Longrightarrow> b \<noteq> result \<Longrightarrow>
   cell_at st' b = cell_at st b"
proof (induction n arbitrary: st index)
  case 0
  then show ?case by simp
next
  case (Suc n)
  have hole: "cell_at st' b = cell_at st b"
    if "store_map rt (store_push st result RUndefined) columns r (Suc index) n result = (e, st')"
    using Suc.IH [OF that] Suc.prems(2,3) by (simp add: store_push_other)
  have step: "cell_at st' b = cell_at st b"
    if "store_decode_row rt st columns row = (Inr v, st1)"
      and "store_map rt (store_push st1 result v) columns r (Suc index) n result = (e, st')"
    for row v st1
    using Suc.IH [OF that(2)] store_decode_row_others [OF that(1) Suc.prems(2)] Suc.prems(2,3)
    by (simp add: store_push_other)
  have stop: "cell_at st' b = cell_at st b"
    if "store_decode_row rt st columns row = (Inl err, st')" for row err
    using store_decode_row_others [OF that Suc.prems(2)] by simp
  show ?case
    using Suc.prems(1) hole step stop
    by (auto split: option.splits cell.splits sum.splits prod.splits if_splits)
qed

lemma record_at_same_cell:
  "cell_at st a = cell_at st' a \<Longrightarrow> record_at st0 st (Ref a) = record_at st0 st' (Ref a)"
  by (simp add: record_at_def)

lemma store_map_sim:
  assumes "ordered st0" and "r < length st0" and "st0 ! r = ArrayCell rows" and "in_store st0 columns"
    and "length st0 \<le> result"
  shows "prefix st0 st \<Longrightarrow> cell_at st result = Some (ArrayCell refs) \<Longrightarrow> index + n = length rows \<Longrightarrow>
         store_map rt st columns r index n result = (e, st') \<Longrightarrow>
         (case e of
            Some err \<Rightarrow>
              map_rows rt (value_of st0 columns) (map (value_of st0) (drop index rows)) = Inl err
          | None \<Rightarrow>
              (\<exists>new. cell_at st' result = Some (ArrayCell (refs @ new)) \<and>
                 map_rows rt (value_of st0 columns) (map (value_of st0) (drop index rows)) =
                   Inr (map (record_at st0 st') new)))"
proof (induction n arbitrary: st index refs)
  case 0
  then show ?case by auto
next
  case (Suc n)
  have index: "index < length rows" using Suc.prems(3) by simp
  have result: "result < length st"
    using Suc.prems(2) by (simp add: cell_at_def split: if_splits)
  have rows: "cell_at st r = Some (ArrayCell rows)"
    using cell_at_prefix [OF Suc.prems(1) assms(2)] assms(2,3) by (simp add: cell_at_def)
  have row: "in_store st0 (rows ! index)"
    using in_store_nth [OF assms(1,2,3) index] .
  have drop: "drop index rows = rows ! index # drop (Suc index) rows"
    using index by (simp add: Cons_nth_drop_Suc)
  obtain res st1 where call: "store_decode_row rt st columns (rows ! index) = (res, st1)"
    by (cases "store_decode_row rt st columns (rows ! index)") auto
  note sim = store_decode_row_sim [OF assms(1) Suc.prems(1) assms(4) row call]
  show ?case
  proof (cases res)
    case (Inl err)
    then show ?thesis
      using Suc.prems(4) rows index call sim drop by auto
  next
    case (Inr v)
    then obtain a where a: "v = Ref a" "length st \<le> a" "a < length st1"
      using sim by auto
    let ?st2 = "store_push st1 result v"
    have "cell_at st1 result = Some (ArrayCell refs)"
      using store_decode_row_others(1) [OF call result] Suc.prems(2) by simp
    then have pushed: "cell_at ?st2 result = Some (ArrayCell (refs @ [v]))"
      by (auto simp: store_push_def cell_at_def split: if_splits)
    have grown: "prefix st0 ?st2"
      using store_push_frame [OF store_decode_row_frame [OF call Suc.prems(1)] assms(5)] .
    have rest: "store_map rt ?st2 columns r (Suc index) n result = (e, st')"
      using Suc.prems(4) rows index call Inr by simp
    have kept: "record_at st0 st' v = record_at st0 st1 v"
    proof -
      have "a \<noteq> result" using a(2) result by simp
      then have "cell_at st' a = cell_at st1 a"
        using store_map_others [OF rest, of a] a(3) by (simp add: store_push_other)
      then show ?thesis
        using a(1) record_at_same_cell by metis
    qed
    have head: "decode_row rt (value_of st0 columns) (value_of st0 (rows ! index)) = Inr (record_at st0 st1 v)"
      using sim Inr by simp
    show ?thesis
    proof (cases e)
      case None
      then obtain new where new: "cell_at st' result = Some (ArrayCell ((refs @ [v]) @ new))"
          "map_rows rt (value_of st0 columns) (map (value_of st0) (drop (Suc index) rows)) =
             Inr (map (record_at st0 st') new)"
        using Suc.IH [OF grown pushed _ rest] Suc.prems(3) by auto
      then have "cell_at st' result = Some (ArrayCell (refs @ (v # new)))"
        by simp
      moreover have "map_rows rt (value_of st0 columns) (map (value_of st0) (drop index rows)) =
          Inr (map (record_at st0 st') (v # new))"
        using drop head kept new(2) by simp
      ultimately show ?thesis
        unfolding None by (simp only: option.case) blast
    next
      case (Some err)
      then have "map_rows rt (value_of st0 columns) (map (value_of st0) (drop (Suc index) rows)) = Inl err"
        using Suc.IH [OF grown pushed _ rest] Suc.prems(3) by auto
      then show ?thesis
        using Some drop head by simp
    qed
  qed
qed

lemma store_rows_map_sim:
  assumes "ordered st" and "in_store st columns" and "in_store st rows"
    and "store_rows_map rt st columns rows = (res, st')"
  shows "rows_map rt (value_of st columns) (value_of st rows) =
           (case res of Inl e \<Rightarrow> Inl e | Inr v \<Rightarrow> Inr (records_at st st' v))"
proof (cases rows)
  case (Ref r)
  then have r: "r < length st" using assms(3) by simp
  then have at: "cell_at st r = Some (st ! r)" by (simp add: cell_at_def)
  show ?thesis
  proof (cases "st ! r")
    case (ArrayCell xs)
    let ?st1 = "st @ [ArrayCell []]"
    obtain e st2 where loop: "store_map rt ?st1 columns r 0 (length xs) (length st) = (e, st2)"
      by (cases "store_map rt ?st1 columns r 0 (length xs) (length st)") auto
    have "prefix st ?st1" by simp
    moreover have "cell_at ?st1 (length st) = Some (ArrayCell [])"
      by (simp add: cell_at_def)
    ultimately have sim: "case e of
        Some err \<Rightarrow> map_rows rt (value_of st columns) (map (value_of st) xs) = Inl err
      | None \<Rightarrow> (\<exists>new. cell_at st2 (length st) = Some (ArrayCell new) \<and>
                 map_rows rt (value_of st columns) (map (value_of st) xs) =
                   Inr (map (record_at st st2) new))"
      using store_map_sim [OF assms(1) r ArrayCell assms(2) order_refl, of ?st1 "[]" 0 "length xs" rt e st2]
        loop by (cases e) simp_all
    have rows_value: "value_of st rows = Arr (map (value_of st) xs)"
      using Ref ArrayCell value_of_Ref [OF assms(1) r] by simp
    show ?thesis
    proof (cases e)
      case None
      then show ?thesis
        using assms(4) Ref at ArrayCell loop sim rows_value
        by (auto simp: store_rows_map_def alloc_def records_at_def)
    next
      case (Some err)
      then show ?thesis
        using assms(4) Ref at ArrayCell loop sim rows_value
        by (auto simp: store_rows_map_def alloc_def)
    qed
  next
    case (ObjectCell kvs q)
    then have "value_of st rows = Obj (map (\<lambda>kv. (fst kv, value_of st (snd kv))) kvs)"
      using Ref value_of_Ref [OF assms(1) r] by simp
    then show ?thesis
      using assms(4) Ref at ObjectCell by (auto simp: store_rows_map_def)
  qed
qed (use assms(4) in \<open>auto simp: store_rows_map_def\<close>)

lemma records_at_empty: "records_at st (st @ [ArrayCell []]) (Ref (length st)) = []"
  by (simp add: records_at_def cell_at_def)

lemma store_decode_many_sim:
  assumes "ordered st" and "in_store st data"
  shows "decode_many rt resource (value_of st data) =
           (case store_decode_many rt st resource data of
              (Inl e, st') \<Rightarrow> Inl e
            | (Inr v, st') \<Rightarrow> Inr (records_at st st' v))"
proof (cases "store_get_prop st data resource")
  case (Inl e)
  then show ?thesis
    using get_prop_value_of [OF assms, of resource]
    by (simp add: decode_many_def store_decode_many_def)
next
  case table: (Inr table)
  then have t: "in_store st table"
    using store_get_prop_in_store [OF assms] by blast
  have read_table: "get_prop (value_of st data) resource = Inr (value_of st table)"
    using get_prop_value_of [OF assms, of resource] table by simp
  show ?thesis
  proof (cases "store_truthy table")
    case False
    then show ?thesis
      using table read_table truthy_value_of [OF assms(1) t]
      by (simp add: decode_many_def store_decode_many_def alloc_def records_at_empty)
  next
    case True
    show ?thesis
    proof (cases "store_get_prop st table ''data''")
      case (Inl e)
      then show ?thesis
        using table read_table True truthy_value_of [OF assms(1) t]
          get_prop_value_of [OF assms(1) t, of "''data''"]
        by (simp add: decode_many_def store_decode_many_def)
    next
      case rows: (Inr rows)
      then have r: "in_store st rows"
        using store_get_prop_in_store [OF assms(1) t] by blast
      have read_rows: "get_prop (value_of st table) ''data'' = Inr (value_of st rows)"
        using get_prop_value_of [OF assms(1) t, of "''data''"] rows by simp
      show ?thesis
      proof (cases "store_truthy rows")
        case False
        then show ?thesis
          using table read_table True truthy_value_of [OF assms(1) t] rows read_rows
            truthy_value_of [OF assms(1) r]
          by (simp add: decode_many_def store_decode_many_def alloc_def records_at_empty)
      next
        case truthy_rows: True
        show ?thesis
        proof (cases "store_get_prop st table ''columns''")
          case (Inl e)
          then show ?thesis
            using table read_table True truthy_value_of [OF assms(1) t] rows read_rows
              truthy_value_of [OF assms(1) r] truthy_rows
              get_prop_value_of [OF assms(1) t, of "''columns''"]
            by (simp add: decode_many_def store_decode_many_def)
        next
          case columns: (Inr columns)
          then have c: "in_store st columns"
            using store_get_prop_in_store [OF assms(1) t] by blast
          have read_columns: "get_prop (value_of st table) ''columns'' = Inr (value_of st columns)"
            using get_prop_value_of [OF assms(1) t, of "''columns''"] columns by simp
          obtain res st' where call: "store_rows_map rt st columns rows = (res, st')"
            by (cases "store_rows_map rt st columns rows") auto
          show ?thesis
            using table read_table True truthy_value_of [OF assms(1) t] rows read_rows
              truthy_value_of [OF assms(1) r] truthy_rows columns read_columns call
              store_rows_map_sim [OF assms(1) c r call]
            by (simp add: decode_many_def store_decode_many_def)
        qed
      qed
    qed
  qed
qed

lemma store_getMarketData_decode_sim:
  assumes "ordered st" and "in_store st data"
  shows "getMarketData_decode rt (value_of st data) =
           (case store_getMarketData_decode rt st data of
              (Inl e, st') \<Rightarrow> Inl e
            | (Inr v, st') \<Rightarrow> Inr (quote_at st st' v))"
proof (cases "store_get_prop st data ''marketdata''")
  case (Inl e)
  then show ?thesis
    using get_prop_value_of [OF assms, of "''marketdata''"]
    by (simp add: getMarketData_decode_def store_getMarketData_decode_def)
next
  case table: (Inr table)
  then have t: "in_store st table"
    using store_get_prop_in_store [OF assms] by blast
  have read_table: "get_prop (value_of st data) ''marketdata'' = Inr (value_of st table)"
    using get_prop_value_of [OF assms, of "''marketdata''"] table by simp
  note truthy_table = truthy_value_of [OF assms(1) t]
  show ?thesis
  proof (cases "store_truthy table")
    case False
    then show ?thesis
      using table read_table truthy_table
      by (simp add: getMarketData_decode_def store_getMarketData_decode_def quote_at_def)
  next
    case True
    show ?thesis
    proof (cases "store_get_prop st table ''data''")
      case (Inl e)
      then show ?thesis
        using table read_table True truthy_table get_prop_value_of [OF assms(1) t, of "''data''"]
        by (simp add: getMarketData_decode_def store_getMarketData_decode_def)
    next
      case rows: (Inr rows)
      then have r: "in_store st rows"
        using store_get_prop_in_store [OF assms(1) t] by blast
      have read_rows: "get_prop (value_of st table) ''data'' = Inr (value_of st rows)"
        using get_prop_value_of [OF assms(1) t, of "''data''"] rows by simp
      note truthy_rows = truthy_value_of [OF assms(1) r]
      note guards = table read_table True truthy_table rows read_rows truthy_rows
      show ?thesis
      proof (cases "store_truthy rows")
        case False
        then show ?thesis
          using guards by (simp add: getMarketData_decode_def store_getMarketData_decode_def quote_at_def)
      next
        case rows_truthy: True
        show ?thesis
        proof (cases "store_get_prop st rows ''length''")
          case (Inl e)
          then show ?thesis
            using guards rows_truthy get_prop_value_of [OF assms(1) r, of "''length''"]
            by (simp add: getMarketData_decode_def store_getMarketData_decode_def)
        next
          case len: (Inr len)
          then have l: "in_store st len"
            using store_get_prop_in_store [OF assms(1) r] by blast
          have read_len: "get_prop (value_of st rows) ''length'' = Inr (value_of st len)"
            using get_prop_value_of [OF assms(1) r, of "''length''"] len by simp
          note zero = value_of_zero [OF assms(1) l]
          show ?thesis
          proof (cases "len = RNum 0")
            case True
            then show ?thesis
              using guards rows_truthy len read_len
              by (simp add: getMarketData_decode_def store_getMarketData_decode_def quote_at_def)
          next
            case nonzero: False
            show ?thesis
            proof (cases "store_get_prop st table ''columns''")
              case (Inl e)
              then show ?thesis
                using guards rows_truthy len read_len zero nonzero
                  get_prop_value_of [OF assms(1) t, of "''columns''"]
                by (simp add: getMarketData_decode_def store_getMarketData_decode_def)
            next
              case columns: (Inr columns)
              then have c: "in_store st columns"
                using store_get_prop_in_store [OF assms(1) t] by blast
              have read_columns: "get_prop (value_of st table) ''columns'' = Inr (value_of st columns)"
                using get_prop_value_of [OF assms(1) t, of "''columns''"] columns by simp
              show ?thesis
              proof (cases "store_get_index rt st rows 0")
                case (Inl e)
                then show ?thesis
                  using guards rows_truthy len read_len zero nonzero columns read_columns
                    get_index_value_of [OF assms(1) r, of rt 0]
                  by (simp add: getMarketData_decode_def store_getMarketData_decode_def)
              next
                case row: (Inr row)
                then have w: "in_store st row"
                  using store_get_index_in_store [OF assms(1) r] by blast
                have read_row: "get_index rt (value_of st rows) 0 = Inr (value_of st row)"
                  using get_index_value_of [OF assms(1) r, of rt 0] row by simp
                obtain res st' where call: "store_decode_row rt st columns row = (res, st')"
                  by (cases "store_decode_row rt st columns row") auto
                note sim = store_decode_row_sim [OF assms(1) prefix_order.order_refl c w call]
                have "getMarketData_decode rt (value_of st data) =
                    (case res of Inl e \<Rightarrow> Inl e | Inr v \<Rightarrow> Inr (Some (record_at st st' v)))"
                  using guards rows_truthy read_len zero nonzero read_columns read_row sim
                  by (simp add: getMarketData_decode_def split: sum.splits)
                moreover have "quote_at st st' v = Some (record_at st st' v)" if "res = Inr v" for v
                  using sim that by (auto simp: quote_at_def)
                ultimately show ?thesis
                  using guards rows_truthy len nonzero columns row call
                  by (simp add: store_getMarketData_decode_def split: sum.splits)
              qed
            qed
          qed
        qed
      qed
    qed
  qed
qed

lemma store_decoders_refine:
  assumes "ordered st" and "in_store st data"
  shows "getSecurities_decode rt (value_of st data) =
           (case store_getSecurities_decode rt st data of
              (Inl e, st') \<Rightarrow> Inl e | (Inr v, st') \<Rightarrow> Inr (records_at st st' v)) \<and>
         getTradingSessions_decode rt (value_of st data) =
           (case store_getTradingSessions_decode rt st data of
              (Inl e, st') \<Rightarrow> Inl e | (Inr v, st') \<Rightarrow> Inr (records_at st st' v)) \<and>
         getMarketData_decode rt (value_of st data) =
           (case store_getMarketData_decode rt st data of
              (Inl e, st') \<Rightarrow> Inl e | (Inr v, st') \<Rightarrow> Inr (quote_at st st' v))"
  using store_decode_many_sim [OF assms] store_getMarketData_decode_sim [OF assms]
  by (simp add: getSecurities_decode_def getTradingSessions_decode_def
      store_getSecurities_decode_def store_getTradingSessions_decode_def)

lemma example_store_ordered: "ordered example_store"
  by (simp add: ordered_def example_store_def numeral_eq_Suc upt_rec)

lemma example_store_value:
  "value_of example_store (Ref 0) =
     Obj [(''securities'', Obj [(''columns'', Arr [Str ''SECID'', Str ''META'']),
            (''data'', Arr [Arr [Str ''SBER'', Obj [(''lot'', Num 10)]], Arr [Str ''GAZP'', Null]])]),
          (''sessions'', Obj [(''columns'', Arr [Str ''SECID'', Str ''META'']),
            (''data'', Arr [Arr [Str ''SBER'', Obj [(''lot'', Num 10)]], Arr [Str ''GAZP'', Null]])]),
          (''marketdata'', Obj [(''columns'', Arr [Str ''SECID'', Str ''META'']),
            (''data'', Arr [Arr [Str ''SBER'', Obj [(''lot'', Num 10)]], Arr [Str ''GAZP'', Null]])])]"
  by (simp add: value_of_def example_store_def cell_at_def numeral_eq_Suc)

text \<open>The example store, decoded both ways.\<close>

lemma store_decoders_refine_example:
  "ordered example_store \<and> in_store example_store (Ref 0) \<and>
   store_getSecurities_decode example_runtime example_store (Ref 0) =
     (Inr (Ref 7),
      example_store @
        [ArrayCell [Ref 8, Ref 9],
         ObjectCell [(''SECID'', RStr ''SBER''), (''META'', Ref 6)] None,
         ObjectCell [(''SECID'', RStr ''GAZP''), (''META'', RNull)] None]) \<and>
   getSecurities_decode example_runtime (value_of example_store (Ref 0)) =
     Inr [\<lparr>own = [(''SECID'', Str ''SBER''), (''META'', Obj [(''lot'', Num 10)])], proto = None\<rparr>,
          \<lparr>own = [(''SECID'', Str ''GAZP''), (''META'', Null)], proto = None\<rparr>]"
proof -
  have run: "store_getSecurities_decode example_runtime example_store (Ref 0) =
     (Inr (Ref 7),
      example_store @
        [ArrayCell [Ref 8, Ref 9],
         ObjectCell [(''SECID'', RStr ''SBER''), (''META'', Ref 6)] None,
         ObjectCell [(''SECID'', RStr ''GAZP''), (''META'', RNull)] None])"
    by (simp add: example_store_def store_eval_defs numeral_eq_Suc)
  have "records_at example_store
      (example_store @
        [ArrayCell [Ref 8, Ref 9],
         ObjectCell [(''SECID'', RStr ''SBER''), (''META'', Ref 6)] None,
         ObjectCell [(''SECID'', RStr ''GAZP''), (''META'', RNull)] None]) (Ref 7) =
     [\<lparr>own = [(''SECID'', Str ''SBER''), (''META'', Obj [(''lot'', Num 10)])], proto = None\<rparr>,
      \<lparr>own = [(''SECID'', Str ''GAZP''), (''META'', Null)], proto = None\<rparr>]"
    by (simp add: records_at_def record_at_def value_of_def example_store_def cell_at_def numeral_eq_Suc)
  moreover have inside: "in_store example_store (Ref 0)"
    by (simp add: example_store_def)
  ultimately show ?thesis
    using store_decoders_refine [OF example_store_ordered inside, of example_runtime] run
      example_store_ordered
    by simp
qed

end
